theory Spec2Isabelle
  imports Complex_Main "HOL-Library.Monad_Syntax"
begin

section \<open>Values, errors and the random source\<close>

text \<open>
  The two bundle scripts (\<^verbatim>\<open>src/bin/model_veg_bundles.py\<close> and
  \<^verbatim>\<open>src/projects/unsma/spec-soil-bundles.py\<close>) are straight-line Python: they
  draw parameters, loop over an external radiative-transfer model, fill a numpy array
  and write their files. Numbers are modelled as \<^typ>\<open>real\<close>; the properties below
  are about shapes, indices, order and comparisons, none of which depend on the rounding
  of floating-point arithmetic. The rounding the scripts ask for themselves, the three
  decimals of the vegetation CSV, is modelled.

  Python exceptions are values of \<open>error\<close>; a computation that may raise returns
  \<open>error + 'a\<close> with \<open>Inl\<close> the exception.
\<close>

datatype error =
    NameError string
  | IndexError
  | ValueError
  | OSError string
  | ExternalError string

definition bind_e :: "error + 'a \<Rightarrow> ('a \<Rightarrow> error + 'b) \<Rightarrow> error + 'b" where
  "bind_e m f = (case m of Inl e \<Rightarrow> Inl e | Inr x \<Rightarrow> f x)"

text \<open>
  The module \<^verbatim>\<open>random\<close> is a generator with hidden state. It is modelled as an
  infinite stream of raw variates together with the position of the next one. As in
  CPython, \<^verbatim>\<open>uniform(a, b)\<close> is \<^verbatim>\<open>a + (b-a) * random()\<close> and
  \<^verbatim>\<open>gauss(mu, sigma)\<close> is \<^verbatim>\<open>mu + z * sigma\<close> for the next raw variate.
  The stream is arbitrary, so every sequence of draws is covered.
\<close>

type_synonym rstream = "nat \<Rightarrow> real"

definition uniform :: "rstream \<Rightarrow> real \<Rightarrow> real \<Rightarrow> nat \<Rightarrow> real \<times> nat" where
  "uniform rs a b k = (a + (b - a) * rs k, Suc k)"

definition gauss :: "rstream \<Rightarrow> real \<Rightarrow> real \<Rightarrow> nat \<Rightarrow> real \<times> nat" where
  "gauss rs mu sigma k = (mu + rs k * sigma, Suc k)"

section \<open>The vegetation script: sampling the bundle parameters\<close>

text \<open>
  Lines 40-54 of \<^verbatim>\<open>model_veg_bundles.py\<close>: fifteen parallel lists, one entry per
  bundle.
\<close>

record params =
  N :: "real list"
  chloro :: "real list"
  caroten :: "real list"
  brown :: "real list"
  EWT :: "real list"
  LMA :: "real list"
  soil_reflectance :: "real list"
  LAI :: "real list"
  hot_spot :: "real list"
  LAD_inclination :: "real list"
  LAD_bimodality :: "real list"
  s_az :: "real list"
  s_za :: "real list"
  v_az :: "real list"
  v_za :: "real list"

definition empty_params :: params where
  "empty_params = \<lparr> N = [], chloro = [], caroten = [], brown = [], EWT = [], LMA = [],
     soil_reflectance = [], LAI = [], hot_spot = [], LAD_inclination = [],
     LAD_bimodality = [], s_az = [], s_za = [], v_az = [], v_za = [] \<rparr>"

text \<open>
  The rejection loop of lines 65-66 (and 72-73, 87-88, 109-110):
  \<^verbatim>\<open>while x[-1] < lo or x[-1] > hi: x[-1] = random.gauss(mu, sigma)\<close>.
  It has no retry cap, so it is a partial function: \<open>None\<close> is the run that never
  leaves the loop.
\<close>

partial_function (option) rejection_loop ::
  "rstream \<Rightarrow> real \<Rightarrow> real \<Rightarrow> real \<Rightarrow> real \<Rightarrow> real \<Rightarrow> nat \<Rightarrow> (real \<times> nat) option"
where
  "rejection_loop rs mu sigma lo hi x k =
     (if x < lo \<or> x > hi
      then rejection_loop rs mu sigma lo hi (fst (gauss rs mu sigma k)) (snd (gauss rs mu sigma k))
      else Some (x, k))"

text \<open>The first draw (\<^verbatim>\<open>x.append(random.gauss(mu, sigma))\<close>) followed by the loop.\<close>

definition gauss_truncated ::
  "rstream \<Rightarrow> real \<Rightarrow> real \<Rightarrow> real \<Rightarrow> real \<Rightarrow> nat \<Rightarrow> (real \<times> nat) option"
where
  "gauss_truncated rs mu sigma lo hi k =
     rejection_loop rs mu sigma lo hi (fst (gauss rs mu sigma k)) (snd (gauss rs mu sigma k))"

text \<open>One pass of the body of the loop of lines 57-136, in the order of the source.\<close>

definition sample_bundle :: "rstream \<Rightarrow> params \<Rightarrow> nat \<Rightarrow> (params \<times> nat) option" where
  "sample_bundle rs p k0 =
     (case uniform rs 1.3 2.5 k0 of (vN, k1) \<Rightarrow>
      do {
        (vchloro, k2) \<leftarrow> gauss_truncated rs 35 30 5 75 k1;
        (vcaroten, k3) \<leftarrow> gauss_truncated rs 7.5 6.5 1.5 15 k2;
        (vEWT, k4) \<leftarrow> Some (uniform rs 0.002 0.05 k3);
        (vLMA, k5) \<leftarrow> gauss_truncated rs 0.012 0.005 0.0022 0.0365 k4;
        (vsoil, k6) \<leftarrow> Some (uniform rs 0 1 k5);
        (vLAI, k7) \<leftarrow> gauss_truncated rs 3 2 0.1 18 k6;
        (vhot, k8) \<leftarrow> Some (uniform rs 0.05 0.5 k7);
        (vinc, k9) \<leftarrow> Some (uniform rs (- 0.4) 0.4 k8);
        (vbim, k10) \<leftarrow> Some (uniform rs (- 0.1) 0.2 k9);
        (vs_az, k11) \<leftarrow> Some (uniform rs 0 360 k10);
        (vs_za, k12) \<leftarrow> Some (uniform rs 20 20 k11);
        Some (\<lparr> N = N p @ [vN], chloro = chloro p @ [vchloro],
                caroten = caroten p @ [vcaroten], brown = brown p @ [0],
                EWT = EWT p @ [vEWT], LMA = LMA p @ [vLMA],
                soil_reflectance = soil_reflectance p @ [vsoil], LAI = LAI p @ [vLAI],
                hot_spot = hot_spot p @ [vhot],
                LAD_inclination = LAD_inclination p @ [vinc],
                LAD_bimodality = LAD_bimodality p @ [vbim],
                s_az = s_az p @ [vs_az], s_za = s_za p @ [vs_za],
                v_az = v_az p @ [0], v_za = v_za p @ [0] \<rparr>, k12)
      })"

text \<open>\<^verbatim>\<open>for i in range(n_bundles)\<close>: the body does not read \<^verbatim>\<open>i\<close>.\<close>

fun sample_loop :: "rstream \<Rightarrow> nat \<Rightarrow> params \<Rightarrow> nat \<Rightarrow> (params \<times> nat) option" where
  "sample_loop rs 0 p k = Some (p, k)"
| "sample_loop rs (Suc n) p k =
     (case sample_bundle rs p k of None \<Rightarrow> None | Some (p', k') \<Rightarrow> sample_loop rs n p' k')"

definition sample_params :: "rstream \<Rightarrow> nat \<Rightarrow> (params \<times> nat) option" where
  "sample_params rs n_bundles = sample_loop rs n_bundles empty_params 0"


declare rejection_loop.simps [code]

section \<open>Strings, arrays and files\<close>

text \<open>\<^verbatim>\<open>str(n)\<close> and \<^verbatim>\<open>'%0wd' % n\<close> for a non-negative integer.\<close>

fun str :: "nat \<Rightarrow> string" where
  "str n = (if n < 10 then [''0123456789'' ! n]
            else str (n div 10) @ [''0123456789'' ! (n mod 10)])"

declare str.simps [simp del]

definition fmt_d :: "nat \<Rightarrow> nat \<Rightarrow> string" where
  "fmt_d width n = replicate (width - length (str n)) (CHR ''0'') @ str n"

text \<open>
  A two-dimensional numpy array is the list of its rows (C order). The scripts know the
  shape of \<^verbatim>\<open>output_array\<close> statically, so the operations that need the row or
  column count take it as an argument.
\<close>

type_synonym ndarray = "real list list"

definition zeros :: "nat \<Rightarrow> nat \<Rightarrow> ndarray" where
  "zeros r c = replicate r (replicate c 0)"

definition column :: "ndarray \<Rightarrow> nat \<Rightarrow> real list" where
  "column a c = map (\<lambda>row. row ! c) a"

text \<open>\<^verbatim>\<open>a.transpose()\<close> for an array with \<open>m\<close> columns: row \<open>c\<close> of the result is column \<open>c\<close> of \<open>a\<close>.\<close>

definition transpose_nd :: "nat \<Rightarrow> ndarray \<Rightarrow> ndarray" where
  "transpose_nd m a = map (column a) [0..<m]"

text \<open>\<^verbatim>\<open>a[:, 1:]\<close>.\<close>

definition drop_first_column :: "ndarray \<Rightarrow> ndarray" where
  "drop_first_column a = map (drop 1) a"

text \<open>\<^verbatim>\<open>a.tofile(f)\<close> writes the items in C order, whatever the memory layout.\<close>

definition tofile :: "ndarray \<Rightarrow> real list" where
  "tofile a = concat a"

text \<open>
  numpy's rule for assigning a one-dimensional value to a slice of \<open>r\<close> items: the value
  has \<open>r\<close> items, or one item that is repeated; anything else raises ValueError.
\<close>

definition broadcast :: "nat \<Rightarrow> real list \<Rightarrow> error + real list" where
  "broadcast r v =
     (if length v = r then Inr v
      else if length v = 1 then Inr (replicate r (hd v))
      else Inl ValueError)"

text \<open>\<^verbatim>\<open>a[:, c] = v\<close> for an array of shape \<open>(r, m)\<close>.\<close>

definition set_column :: "nat \<Rightarrow> nat \<Rightarrow> ndarray \<Rightarrow> nat \<Rightarrow> real list \<Rightarrow> error + ndarray" where
  "set_column r m a c v =
     (if m \<le> c then Inl IndexError
      else case broadcast r v of
             Inl e \<Rightarrow> Inl e
           | Inr w \<Rightarrow> Inr (map2 (\<lambda>row x. row[c := x]) a w))"

text \<open>\<^verbatim>\<open>xs[i]\<close> on a list or array, for a non-negative index.\<close>

definition idx :: "'a list \<Rightarrow> nat \<Rightarrow> error + 'a" where
  "idx xs i = (if i < length xs then Inr (xs ! i) else Inl IndexError)"

text \<open>
  \<^verbatim>\<open>np.savetxt(path, a, delimiter=",", fmt=...)\<close> writes one line per row of \<open>a\<close>,
  each number through the format. A CSV file is modelled as its rows of numbers, as they
  read back from the text.

  The vegetation script passes \<^verbatim>\<open>fmt='%.3f'\<close> (line 175): the number is rounded to
  three decimals, a tie going to the even neighbour. The soil script passes no format
  (line 280), so numpy's default \<^verbatim>\<open>'%.18e'\<close> applies: nineteen significant digits,
  from which a double reads back as it was.
\<close>

definition round_half_even :: "real \<Rightarrow> int" where
  "round_half_even y =
     (let f = floor y; r = y - of_int f
      in if r < 1 / 2 then f else if 1 / 2 < r then f + 1 else if even f then f else f + 1)"

definition fmt_3f :: "real \<Rightarrow> real" where
  "fmt_3f x = of_int (round_half_even (x * 1000)) / 1000"

definition fmt_18e :: "real \<Rightarrow> real" where
  "fmt_18e x = x"

definition savetxt :: "(real \<Rightarrow> real) \<Rightarrow> ndarray \<Rightarrow> real list list" where
  "savetxt fmt a = map (map fmt) a"

text \<open>
  The ENVI header dictionary of lines 181-193 (and 286-298 of the soil script), and what
  the artifacts and the 6S input files hold. The byte encoding of a float is not
  modelled: a \<^verbatim>\<open>.sli\<close> file is the sequence of numbers written.
\<close>

record metadata =
  samples :: nat
  lines :: nat
  bands :: nat
  data_type :: nat
  header_offset :: nat
  interleave :: string
  byte_order :: nat
  sensor_type :: string
  spectra_names :: "string list"
  wavelength_units :: string
  wavelength :: "real list"

datatype aero = Continental | BiomassBurning

datatype atmos = Tropical

datatype ground_kind = HomogeneousLambertian

datatype ground = DefaultGround | Ground ground_kind "real list \<times> real list"

record geometry =
  geo_solar_a :: real
  geo_solar_z :: real
  geo_view_a :: real
  geo_view_z :: real

record sixs =
  aero_profile_of :: aero
  atmos_profile_of :: atmos
  aot550 :: real
  geometry_of :: geometry
  ground_reflectance_of :: ground

datatype content =
    CsvFile "real list list"
  | SliFile "real list"
  | HdrFile metadata
  | SixsFile sixs

text \<open>
  The fourteen positional arguments of \<^verbatim>\<open>pyprosail.run\<close>, in call order, and what it
  returns: an array with one row \<open>[wavelength, reflectance]\<close> per band. The canopy
  model itself is external.
\<close>

record prosail_args =
  arg_N :: real
  arg_chloro :: real
  arg_caroten :: real
  arg_brown :: real
  arg_EWT :: real
  arg_LMA :: real
  arg_soil_reflectance :: real
  arg_LAI :: real
  arg_hot_spot :: real
  arg_solar_zenith :: real
  arg_solar_azimuth :: real
  arg_view_zenith :: real
  arg_view_azimuth :: real
  arg_LIDF :: "real \<times> real"

text \<open>The \<^verbatim>\<open>SixSHelpers.Wavelengths.run_*\<close> function chosen for the sensor.\<close>

datatype runner = run_wavelengths | run_ali | run_aster | run_er2_mas | run_gli | run_landsat_etm | run_landsat_mss | run_landsat_oli | run_landsat_tm | run_meris | run_modis | run_polder | run_spot_hrv | run_spot_vgt | run_vnir | run_whole_range

text \<open>A call of an external model, with the arguments it was given.\<close>

datatype call =
    ProsailCall prosail_args
  | SixsCall runner sixs "real list option" string

text \<open>
  The world outside the interpreter: the files written so far, and a log with one entry
  per invocation of the external model: the call, and \<open>None\<close> when it returned or the
  exception when it raised.
\<close>

record world =
  files :: "string \<Rightarrow> content option"
  invocations :: "(call \<times> error option) list"

definition log_call :: "call \<Rightarrow> error + 'a \<Rightarrow> world \<Rightarrow> world" where
  "log_call c r w =
     w\<lparr>invocations := invocations w @ [(c, case r of Inl e \<Rightarrow> Some e | Inr _ \<Rightarrow> None)]\<rparr>"

definition write_file :: "string \<Rightarrow> content \<Rightarrow> world \<Rightarrow> world" where
  "write_file path c w = w\<lparr>files := (files w)(path \<mapsto> c)\<rparr>"


section \<open>The vegetation script: simulation loop and export\<close>

text \<open>
  What \<^verbatim>\<open>pyprosail.run\<close> returns is a spectrum; the model is a parameter of the
  driver and may raise.
\<close>

type_synonym spectrum = "(real \<times> real) list"

type_synonym canopy_model = "prosail_args \<Rightarrow> error + spectrum"

text \<open>
  Lines 164-168: the argument list of the call in the loop over \<^verbatim>\<open>j\<close>. The leaf and
  canopy lists are read at \<^verbatim>\<open>j\<close>, the four geometry lists at \<^verbatim>\<open>i\<close>. Reading a list
  past its end raises IndexError.
\<close>

definition bundle_args :: "params \<Rightarrow> nat \<Rightarrow> nat \<Rightarrow> error + prosail_args" where
  "bundle_args p j i =
     (if j < length (LAD_inclination p) \<and> j < length (LAD_bimodality p) \<and>
         j < length (N p) \<and> j < length (chloro p) \<and> j < length (caroten p) \<and>
         j < length (brown p) \<and> j < length (EWT p) \<and> j < length (LMA p) \<and>
         j < length (soil_reflectance p) \<and> j < length (LAI p) \<and> j < length (hot_spot p) \<and>
         i < length (s_za p) \<and> i < length (s_az p) \<and> i < length (v_za p) \<and> i < length (v_az p)
      then Inr \<lparr> arg_N = N p ! j, arg_chloro = chloro p ! j, arg_caroten = caroten p ! j,
                 arg_brown = brown p ! j, arg_EWT = EWT p ! j, arg_LMA = LMA p ! j,
                 arg_soil_reflectance = soil_reflectance p ! j, arg_LAI = LAI p ! j,
                 arg_hot_spot = hot_spot p ! j,
                 arg_solar_zenith = s_za p ! i, arg_solar_azimuth = s_az p ! i,
                 arg_view_zenith = v_za p ! i, arg_view_azimuth = v_az p ! i,
                 arg_LIDF = (LAD_inclination p ! j, LAD_bimodality p ! j) \<rparr>
      else Inl IndexError)"

text \<open>
  Lines 161-171, \<^verbatim>\<open>for j in range(n_bundles)\<close>, as a recursion over the remaining
  values of \<^verbatim>\<open>j\<close>. The state is \<^verbatim>\<open>output_array\<close> and the variable
  \<^verbatim>\<open>spectrum\<close> (\<open>None\<close> while it is unbound). \<open>i\<close> is the value the variable
  \<^verbatim>\<open>i\<close> has when the loop starts; \<open>nb\<close> and \<open>m\<close> are the shape of the array.
\<close>

fun veg_loop ::
  "canopy_model \<Rightarrow> params \<Rightarrow> nat \<Rightarrow> nat \<Rightarrow> nat \<Rightarrow> nat list \<Rightarrow> ndarray \<times> spectrum option \<Rightarrow> world
     \<Rightarrow> (error + ndarray \<times> spectrum option) \<times> world"
where
  "veg_loop run p i nb m [] st w = (Inr st, w)"
| "veg_loop run p i nb m (j # js) st w =
     (case bundle_args p j i of
        Inl e \<Rightarrow> (Inl e, w)
      | Inr args \<Rightarrow>
          (case run args of
             Inl e \<Rightarrow> (Inl e, log_call (ProsailCall args) (run args) w)
           | Inr spectrum \<Rightarrow>
               (case set_column nb m (fst st) (j + 1) (map snd spectrum) of
                  Inl e \<Rightarrow> (Inl e, log_call (ProsailCall args) (run args) w)
                | Inr output_array \<Rightarrow>
                    veg_loop run p i nb m js (output_array, Some spectrum)
                      (log_call (ProsailCall args) (run args) w))))"

text \<open>Lines 150-151: \<^verbatim>\<open>'veg bundle ' + str(i+1)\<close> for each bundle.\<close>

definition veg_output_spec :: "nat \<Rightarrow> string list" where
  "veg_output_spec n_bundles = map (\<lambda>i. ''veg bundle '' @ str (i + 1)) [0..<n_bundles]"

text \<open>
  Lines 141-194. \<^verbatim>\<open>output_base\<close>, \<^verbatim>\<open>n_bundles\<close> and \<^verbatim>\<open>nb\<close> are the constants set
  at the top of the script. When the loop over \<^verbatim>\<open>j\<close> starts, \<^verbatim>\<open>i\<close> still holds
  the last value given to it by the loops of lines 57 and 150, which is
  \<^verbatim>\<open>n_bundles - 1\<close> (with no bundle the body never runs and \<^verbatim>\<open>i\<close> is never read).
  After the loop, line 174 reads \<^verbatim>\<open>spectrum\<close>, which is unbound if the loop body
  never ran.
\<close>

definition veg_driver ::
  "string \<Rightarrow> nat \<Rightarrow> nat \<Rightarrow> canopy_model \<Rightarrow> params \<Rightarrow> world \<Rightarrow> (error + unit) \<times> world"
where
  "veg_driver output_base n_bundles nb run p w0 =
     (let output_csv = output_base @ ''_speclib.csv'';
          output_sli = output_base @ ''_speclib.sli'';
          output_hdr = output_base @ ''_speclib.hdr'';
          output_spec = veg_output_spec n_bundles;
          i = n_bundles - 1
      in case veg_loop run p i nb (n_bundles + 1) [0..<n_bundles]
                (zeros nb (n_bundles + 1), None) w0 of
           (Inl e, w) \<Rightarrow> (Inl e, w)
         | (Inr (output_array, None), w) \<Rightarrow> (Inl (NameError ''spectrum''), w)
         | (Inr (output_array, Some spectrum), w) \<Rightarrow>
             (case set_column nb (n_bundles + 1) output_array 0 (map fst spectrum) of
                Inl e \<Rightarrow> (Inl e, w)
              | Inr output_array' \<Rightarrow>
                  (Inr (),
                   write_file output_hdr
                     (HdrFile \<lparr> samples = nb, lines = n_bundles, bands = 1, data_type = 5,
                        header_offset = 0, interleave = ''bsq'', byte_order = 0,
                        sensor_type = ''prosail'', spectra_names = output_spec,
                        wavelength_units = ''micrometers'',
                        wavelength = column output_array' 0 \<rparr>)
                     (write_file output_sli
                        (SliFile (tofile (transpose_nd n_bundles (drop_first_column output_array'))))
                        (write_file output_csv
                           (CsvFile (savetxt fmt_3f (transpose_nd (n_bundles + 1) output_array')))
                           w)))))"

text \<open>The whole script: sample the parameters, then simulate and export.\<close>

definition veg_script ::
  "string \<Rightarrow> nat \<Rightarrow> nat \<Rightarrow> canopy_model \<Rightarrow> rstream \<Rightarrow> world \<Rightarrow> ((error + unit) \<times> world) option"
where
  "veg_script output_base n_bundles nb run rs w =
     (case sample_params rs n_bundles of
        None \<Rightarrow> None
      | Some (p, k) \<Rightarrow> Some (veg_driver output_base n_bundles nb run p w))"


section \<open>The soil script\<close>

text \<open>
  What \<^verbatim>\<open>aei.readJFSC\<close> returns, as far as the script reads it: the unit tag of the
  wavelength axis, the axis, and the measured spectra.
\<close>

record soil =
  band_unit :: string
  band_centers :: "real list"
  spectra :: "real list list"

text \<open>
  The code outside the repository that the script calls: the reader of a soil file, the
  removal of the water bands, the 6S run for a sensor (given the \<^verbatim>\<open>SixS\<close> object, the
  custom wavelengths if any, and the output name; it returns the pair
  \<^verbatim>\<open>(wavelengths, results)\<close>), and the \<^verbatim>\<open>SixS\<close> object as it is before the loop.
  Each of the three calls may raise.
\<close>

record externals =
  readJFSC :: "string \<Rightarrow> error + soil"
  remove_water_bands :: "soil \<Rightarrow> error + soil"
  run_sixs_params :: "runner \<Rightarrow> sixs \<Rightarrow> real list option \<Rightarrow> string \<Rightarrow> error + real list \<times> real list"
  sixs_initial :: sixs

text \<open>
  The arrays drawn at random before the loop (lines 59-87 and 127), as they come back
  from \<^verbatim>\<open>np.random.random_integers\<close>, \<^verbatim>\<open>aei.randomFloats\<close> and
  \<^verbatim>\<open>random.sample\<close>. \<open>view_a_raw\<close> is \<^verbatim>\<open>aei.randomFloats(n_atmospheres, 0, 5)\<close>.
\<close>

record draws =
  atmos_profile_ind :: "nat list"
  aero_profile_ind :: "nat list"
  ground_reflectance_ind :: "nat list"
  aot :: "real list"
  solar_a :: "real list"
  solar_z :: "real list"
  view_a_raw :: "real list"
  view_z :: "real list"
  srnd :: "nat list"

definition atmos_profile :: "atmos list" where
  "atmos_profile = [Tropical]"

definition aero_profile :: "aero list" where
  "aero_profile = [Continental, BiomassBurning]"

definition ground_reflectance :: "ground_kind list" where
  "ground_reflectance = [HomogeneousLambertian]"

text \<open>Lines 86 and 90: shift by 2.5 and wrap the negative azimuths to the 0-360 scale.\<close>

definition view_a :: "draws \<Rightarrow> real list" where
  "view_a d = map (\<lambda>y. if y < 0 then y + 360 else y) (map (\<lambda>x. x - 2.5) (view_a_raw d))"

definition soil_files :: "string list" where
  "soil_files =
     [''/home/cba/cba/global/spectra/joint_fire_science_program/southern_california/soil/privcali.txt'',
      ''/home/cba/cba/global/spectra/joint_fire_science_program/southern_california/soil/bigrocks.txt'',
      ''/home/cba/cba/global/spectra/joint_fire_science_program/southern_california/soil/parksand.txt'',
      ''/home/cba/cba/global/spectra/joint_fire_science_program/southern_california/soil/hillcali.txt'',
      ''/home/cba/cba/global/spectra/joint_fire_science_program/southern_california/soil/deepcali.txt'',
      ''/home/cba/cba/global/spectra/joint_fire_science_program/southern_california/soil/sand.txt'',
      ''/home/cba/cba/global/spectra/joint_fire_science_program/southern_california/soil/bridge.txt'',
      ''/home/cba/cba/global/spectra/joint_fire_science_program/southern_california/soil/sandston.txt'',
      ''/home/cba/cba/global/spectra/joint_fire_science_program/western_montana/soil/calib5rd.txt'',
      ''/home/cba/cba/global/spectra/joint_fire_science_program/western_montana/soil/grayrock.txt'',
      ''/home/cba/cba/global/spectra/joint_fire_science_program/western_montana/soil/baresoil.txt'',
      ''/home/cba/cba/global/spectra/joint_fire_science_program/western_montana/soil/redrock.txt'',
      ''/home/cba/cba/global/spectra/joint_fire_science_program/western_montana/soil/site4cal.txt'',
      ''/home/cba/cba/global/spectra/joint_fire_science_program/western_montana/soil/grayrock_hillslope.txt'',
      ''/home/cba/cba/global/spectra/joint_fire_science_program/western_montana/soil/rockycal.txt'',
      ''/home/cba/cba/global/spectra/joint_fire_science_program/western_montana/soil/calibrd.txt'',
      ''/home/cba/cba/global/spectra/joint_fire_science_program/western_montana/soil/whalecal.txt'',
      ''/home/cba/cba/global/spectra/joint_fire_science_program/western_montana/soil/rocksig.txt'',
      ''/home/cba/cba/global/spectra/joint_fire_science_program/western_montana/soil/oldrocky.txt'',
      ''/home/cba/cba/global/spectra/joint_fire_science_program/western_montana/soil/bluesadl.txt'',
      ''/home/cba/cba/global/spectra/joint_fire_science_program/western_montana/soil/roadsoil.txt'',
      ''/home/cba/cba/global/spectra/joint_fire_science_program/western_montana/soil/rockunbu.txt'',
      ''/home/cba/cba/global/spectra/joint_fire_science_program/western_montana/soil/morelcal.txt'',
      ''/home/cba/cba/global/spectra/joint_fire_science_program/western_montana/soil/teepeeca.txt'',
      ''/home/cba/cba/global/spectra/joint_fire_science_program/western_montana/soil/soil_unb.txt'',
      ''/home/cba/cba/global/spectra/joint_fire_science_program/western_montana/soil/sgsaddle.txt'',
      ''/home/cba/cba/global/spectra/joint_fire_science_program/western_montana/soil/cooney_grayrock.txt'',
      ''/home/cba/cba/global/spectra/joint_fire_science_program/western_montana/soil/hillcal.txt'']"

text \<open>
  Line 127: \<^verbatim>\<open>random.sample(range(len(soil_files)), n_bundles)\<close> raises ValueError
  when the sample is larger than the population; otherwise the draw is returned.
  Lines 128-130 then read \<^verbatim>\<open>soil_files\<close> at each drawn index.
\<close>

definition random_sample :: "nat list \<Rightarrow> nat \<Rightarrow> nat \<Rightarrow> error + nat list" where
  "random_sample drawn population k = (if population < k then Inl ValueError else Inr drawn)"

fun pick_files :: "nat list \<Rightarrow> error + string list" where
  "pick_files [] = Inr []"
| "pick_files (i # is) =
     (case idx soil_files i of
        Inl e \<Rightarrow> Inl e
      | Inr f \<Rightarrow> (case pick_files is of Inl e \<Rightarrow> Inl e | Inr fs \<Rightarrow> Inr (f # fs)))"

text \<open>
  Lines 135-202: the runner, \<^verbatim>\<open>num_bands\<close> and \<^verbatim>\<open>good_bands\<close> for the target
  sensor. \<open>wl\<close> is the array \<^verbatim>\<open>np.arange(wl_start, wl_end, wl_interval)\<close> of line 45.
\<close>

definition supported_sensors :: "string list" where
  "supported_sensors = [''custom'', ''ali'', ''aster'', ''er2_mas'', ''gli'', ''landsat_etm'', ''landsat_mss'', ''landsat_oli'', ''landsat_tm'', ''meris'', ''modis'', ''polder'', ''spot_hrv'', ''spot_vgt'', ''vnir'', ''whole_range'']"

definition sensor_config :: "string \<Rightarrow> real list \<Rightarrow> error + runner \<times> nat \<times> nat list" where
  "sensor_config target_sensor wl =
     (if target_sensor = ''custom'' then Inr (run_wavelengths, length wl, [0..<length wl])
      else if target_sensor = ''ali'' then Inr (run_ali, 7, [0..<7])
      else if target_sensor = ''aster'' then Inr (run_aster, 9, [0..<9])
      else if target_sensor = ''er2_mas'' then Inr (run_er2_mas, 7, [0..<7])
      else if target_sensor = ''gli'' then Inr (run_gli, 30, [0..<30])
      else if target_sensor = ''landsat_etm'' then Inr (run_landsat_etm, 6, [0..<6])
      else if target_sensor = ''landsat_mss'' then Inr (run_landsat_mss, 4, [0..<4])
      else if target_sensor = ''landsat_oli'' then Inr (run_landsat_oli, 10, map (\<lambda>k. k + 1) [0..<6])
      else if target_sensor = ''landsat_tm'' then Inr (run_landsat_tm, 6, [0..<6])
      else if target_sensor = ''meris'' then Inr (run_meris, 16, [0..<16])
      else if target_sensor = ''modis'' then Inr (run_modis, 8, [0..<8])
      else if target_sensor = ''polder'' then Inr (run_polder, 8, [0..<8])
      else if target_sensor = ''spot_hrv'' then Inr (run_spot_hrv, 4, [0..<4])
      else if target_sensor = ''spot_vgt'' then Inr (run_spot_vgt, 4, [0..<4])
      else if target_sensor = ''vnir'' then Inr (run_vnir, 200, [0..<200])
      else if target_sensor = ''whole_range'' then Inr (run_whole_range, 380, map (\<lambda>k. k + 20) [0..<210])
      else Inl (OSError ''Unsupported sensor configuration''))"

text \<open>\<^verbatim>\<open>results[good_bands]\<close>: indexing with an array of indices.\<close>

definition fancy_index :: "real list \<Rightarrow> nat list \<Rightarrow> error + real list" where
  "fancy_index xs ks =
     (if list_all (\<lambda>k. k < length xs) ks then Inr (map (\<lambda>k. xs ! k) ks) else Inl IndexError)"

text \<open>
  Lines 254-259: the unit conversion and the array handed to 6S. The array
  \<^verbatim>\<open>np.array([band_centers, spectra[0]]).transpose()\<close> is kept as the pair of its two
  columns, as the reader delivered them. What numpy makes of two columns of different
  lengths depends on its version (an array of objects, or ValueError) and is not
  modelled: the reader, which is not in the repository, is taken to return matched
  columns.
\<close>

definition soil_spectrum :: "soil \<Rightarrow> error + real list \<times> real list" where
  "soil_spectrum s =
     (let centers = (if band_unit s = ''Nanometers''
                     then map (\<lambda>x. x / 1000) (band_centers s)
                     else band_centers s)
      in case idx (spectra s) 0 of
           Inl e \<Rightarrow> Inl e
         | Inr reflectance \<Rightarrow> Inr (centers, reflectance))"


text \<open>
  The variables the two loops update: the \<^verbatim>\<open>SixS\<close> object \<^verbatim>\<open>s\<close>, the array
  \<^verbatim>\<open>output_array\<close>, and \<^verbatim>\<open>wavelengths\<close> (\<open>None\<close> while it is unbound).
\<close>

record vars =
  sx :: sixs
  output_array :: ndarray
  wavelengths :: "real list option"

text \<open>
  Lines 235-243: the settings of atmosphere \<open>i\<close>. It returns the updated \<^verbatim>\<open>SixS\<close>
  object and \<^verbatim>\<open>ground_refl\<close>.
\<close>

definition set_atmosphere :: "draws \<Rightarrow> nat \<Rightarrow> sixs \<Rightarrow> error + sixs \<times> ground_kind" where
  "set_atmosphere d i s =
     bind_e (idx (aero_profile_ind d) i) (\<lambda>ai.
     bind_e (idx aero_profile ai) (\<lambda>aero.
     bind_e (idx (atmos_profile_ind d) i) (\<lambda>ti.
     bind_e (idx atmos_profile ti) (\<lambda>atm.
     bind_e (idx (aot d) i) (\<lambda>aot_i.
     bind_e (idx (solar_a d) i) (\<lambda>sa.
     bind_e (idx (solar_z d) i) (\<lambda>sz.
     bind_e (idx (view_a d) i) (\<lambda>va.
     bind_e (idx (view_z d) i) (\<lambda>vz.
     bind_e (idx (ground_reflectance_ind d) i) (\<lambda>gi.
     bind_e (idx ground_reflectance gi) (\<lambda>ground_refl.
       Inr (s\<lparr> aero_profile_of := aero, atmos_profile_of := atm, aot550 := aot_i,
                geometry_of := \<lparr> geo_solar_a = sa, geo_solar_z = sz,
                                  geo_view_a = va, geo_view_z = vz \<rparr> \<rparr>,
            ground_refl))))))))))))"

text \<open>
  Lines 248-272: one pass of the loop over \<^verbatim>\<open>j\<close>, for atmosphere \<open>i\<close>. \<open>nb\<close> and
  \<open>m\<close> are the shape of \<^verbatim>\<open>output_array\<close>. The call of the runner is the model
  invocation; it is logged whether it returns or raises.
\<close>

definition soil_bundle ::
  "externals \<Rightarrow> string \<Rightarrow> real list \<Rightarrow> runner \<Rightarrow> nat list \<Rightarrow> nat \<Rightarrow> nat \<Rightarrow> nat \<Rightarrow> string list
     \<Rightarrow> ground_kind \<Rightarrow> nat \<Rightarrow> nat \<Rightarrow> vars \<Rightarrow> world \<Rightarrow> (error + vars) \<times> world"
where
  "soil_bundle ext target_sensor wl run_sixs good_bands nb m n_bundles soil_spectra
       ground_refl i j v w =
     (case bind_e (idx soil_spectra j) (\<lambda>path.
           bind_e (readJFSC ext path) (\<lambda>soil.
           bind_e (remove_water_bands ext soil) soil_spectrum)) of
        Inl e \<Rightarrow> (Inl e, w)
      | Inr spectrum \<Rightarrow>
          (let s = (sx v)\<lparr>ground_reflectance_of := Ground ground_refl spectrum\<rparr>;
               wl_arg = (if target_sensor = ''custom'' then Some wl else None);
               outcome = run_sixs_params ext run_sixs s wl_arg ''apparent_reflectance'';
               w' = log_call (SixsCall run_sixs s wl_arg ''apparent_reflectance'') outcome w
           in case outcome of
                Inl e \<Rightarrow> (Inl e, w')
              | Inr (wavelengths', results) \<Rightarrow>
                  (case bind_e (fancy_index results good_bands)
                          (set_column nb m (output_array v) (i * n_bundles + j + 1)) of
                     Inl e \<Rightarrow> (Inl e, w')
                   | Inr a \<Rightarrow>
                       (Inr (v\<lparr>sx := s, output_array := a, wavelengths := Some wavelengths'\<rparr>),
                        w'))))"

text \<open>\<^verbatim>\<open>for j in range(n_bundles)\<close> (line 246), over the remaining values of \<^verbatim>\<open>j\<close>.\<close>

fun soil_bundles ::
  "(nat \<Rightarrow> vars \<Rightarrow> world \<Rightarrow> (error + vars) \<times> world) \<Rightarrow> nat list \<Rightarrow> vars \<Rightarrow> world
     \<Rightarrow> (error + vars) \<times> world"
where
  "soil_bundles body [] v w = (Inr v, w)"
| "soil_bundles body (j # js) v w =
     (case body j v w of
        (Inl e, w') \<Rightarrow> (Inl e, w')
      | (Inr v', w') \<Rightarrow> soil_bundles body js v' w')"

text \<open>Lines 219-220 and 222-223: the names of the 6S input files and of the spectra.\<close>

definition output_sixs :: "string \<Rightarrow> nat \<Rightarrow> string" where
  "output_sixs output_base i = output_base @ ''_atm_'' @ fmt_d 2 (i + 1) @ ''.sixs''"

definition soil_output_spec :: "nat \<Rightarrow> string list" where
  "soil_output_spec n_bundles = map (\<lambda>i. ''Soil bundle '' @ fmt_d 3 (i + 1)) [0..<n_bundles]"

text \<open>
  Lines 232-275: one pass of the loop over \<^verbatim>\<open>i\<close>: set the atmosphere, run the loop
  over the bundles, write the 6S input file of this atmosphere.
\<close>

definition soil_atmosphere ::
  "externals \<Rightarrow> draws \<Rightarrow> string \<Rightarrow> string \<Rightarrow> real list \<Rightarrow> runner \<Rightarrow> nat list \<Rightarrow> nat \<Rightarrow> nat \<Rightarrow> nat
     \<Rightarrow> string list \<Rightarrow> nat \<Rightarrow> vars \<Rightarrow> world \<Rightarrow> (error + vars) \<times> world"
where
  "soil_atmosphere ext d output_base target_sensor wl run_sixs good_bands nb m n_bundles
       soil_spectra i v w =
     (case set_atmosphere d i (sx v) of
        Inl e \<Rightarrow> (Inl e, w)
      | Inr (s, ground_refl) \<Rightarrow>
          (case soil_bundles
                  (soil_bundle ext target_sensor wl run_sixs good_bands nb m n_bundles
                     soil_spectra ground_refl i)
                  [0..<n_bundles] (v\<lparr>sx := s\<rparr>) w of
             (Inl e, w') \<Rightarrow> (Inl e, w')
           | (Inr v', w') \<Rightarrow>
               (Inr v', write_file (output_sixs output_base i) (SixsFile (sx v')) w')))"

text \<open>\<^verbatim>\<open>for i in range(n_atmospheres)\<close> (line 232), over the remaining values of \<^verbatim>\<open>i\<close>.\<close>

fun soil_atmospheres ::
  "(nat \<Rightarrow> vars \<Rightarrow> world \<Rightarrow> (error + vars) \<times> world) \<Rightarrow> nat list \<Rightarrow> vars \<Rightarrow> world
     \<Rightarrow> (error + vars) \<times> world"
where
  "soil_atmospheres body [] v w = (Inr v, w)"
| "soil_atmospheres body (i # is) v w =
     (case body i v w of
        (Inl e, w') \<Rightarrow> (Inl e, w')
      | (Inr v', w') \<Rightarrow> soil_atmospheres body is v' w')"

text \<open>
  Lines 127-279: everything before the export. \<^verbatim>\<open>output_base\<close>,
  \<^verbatim>\<open>n_atmospheres\<close>, \<^verbatim>\<open>n_bundles\<close>, \<^verbatim>\<open>target_sensor\<close> and \<^verbatim>\<open>wl\<close> are
  the constants set at the top. After the loops, line 278 reads \<^verbatim>\<open>wavelengths\<close>,
  which is unbound if no bundle was simulated, and line 279 stores
  \<^verbatim>\<open>wavelengths[good_bands]\<close> in column 0. The result is what the export reads:
  \<^verbatim>\<open>good_bands\<close>, \<^verbatim>\<open>output_array\<close> and \<^verbatim>\<open>wavelengths[good_bands]\<close>.
\<close>

definition soil_simulation ::
  "string \<Rightarrow> nat \<Rightarrow> nat \<Rightarrow> string \<Rightarrow> real list \<Rightarrow> externals \<Rightarrow> draws \<Rightarrow> world
     \<Rightarrow> (error + nat list \<times> ndarray \<times> real list) \<times> world"
where
  "soil_simulation output_base n_atmospheres n_bundles target_sensor wl ext d w0 =
     (case bind_e (random_sample (srnd d) (length soil_files) n_bundles) pick_files of
        Inl e \<Rightarrow> (Inl e, w0)
      | Inr soil_spectra \<Rightarrow>
     (case sensor_config target_sensor wl of
        Inl e \<Rightarrow> (Inl e, w0)
      | Inr (run_sixs, num_bands, good_bands) \<Rightarrow>
     (let nb = length good_bands;
          m = n_bundles * n_atmospheres + 1
      in case soil_atmospheres
                (soil_atmosphere ext d output_base target_sensor wl run_sixs good_bands nb m
                   n_bundles soil_spectra)
                [0..<n_atmospheres]
                \<lparr> sx = sixs_initial ext, output_array = zeros nb m, wavelengths = None \<rparr> w0 of
           (Inl e, w) \<Rightarrow> (Inl e, w)
         | (Inr v, w) \<Rightarrow>
             (case wavelengths v of
                None \<Rightarrow> (Inl (NameError ''wavelengths''), w)
              | Some wavelengths' \<Rightarrow>
                  (case fancy_index wavelengths' good_bands of
                     Inl e \<Rightarrow> (Inl e, w)
                   | Inr axis \<Rightarrow>
                       (case set_column nb m (output_array v) 0 axis of
                          Inl e \<Rightarrow> (Inl e, w)
                        | Inr a \<Rightarrow> (Inr (good_bands, a, axis), w)))))))"

text \<open>Lines 286-298: the header dictionary the soil script builds.\<close>

definition soil_metadata ::
  "nat \<Rightarrow> nat \<Rightarrow> nat \<Rightarrow> string \<Rightarrow> string list \<Rightarrow> real list \<Rightarrow> metadata" where
  "soil_metadata nb n_bundles n_atmospheres target_sensor output_spec axis =
     \<lparr> samples = nb, lines = n_bundles * n_atmospheres, bands = 1, data_type = 5,
        header_offset = 0, interleave = ''bsq'', byte_order = 0, sensor_type = target_sensor,
        spectra_names = output_spec, wavelength_units = ''micrometers'', wavelength = axis \<rparr>"

text \<open>
  Lines 280-299: the export. The CSV and the \<^verbatim>\<open>.sli\<close> file are written and the
  dictionary is built. Line 299 then calls \<^verbatim>\<open>envi.write_envi_header\<close>, but the
  script binds no name \<^verbatim>\<open>envi\<close>: its imports are \<^verbatim>\<open>numpy as np\<close>,
  \<^verbatim>\<open>aei\<close>, \<^verbatim>\<open>random\<close>, \<^verbatim>\<open>spectral\<close> and the names of \<^verbatim>\<open>Py6S\<close>, where the
  vegetation script writes \<^verbatim>\<open>spectral.envi.write_envi_header\<close>. Evaluating the name
  raises NameError before the header file is opened, so the dictionary is never written.
\<close>

definition soil_export ::
  "string \<Rightarrow> nat \<Rightarrow> nat \<Rightarrow> string \<Rightarrow> nat list \<Rightarrow> ndarray \<Rightarrow> real list \<Rightarrow> world
     \<Rightarrow> (error + unit) \<times> world"
where
  "soil_export output_base n_atmospheres n_bundles target_sensor good_bands a axis w =
     (let output_csv = output_base @ ''_speclib.csv'';
          output_sli = output_base @ ''_speclib.sli'';
          output_hdr = output_base @ ''_speclib.hdr'';
          output_spec = soil_output_spec n_bundles;
          w1 = write_file output_csv
                 (CsvFile (savetxt fmt_18e (transpose_nd (n_bundles * n_atmospheres + 1) a))) w;
          w2 = write_file output_sli
                 (SliFile (tofile (transpose_nd (n_bundles * n_atmospheres)
                    (drop_first_column a)))) w1;
          metadata = soil_metadata (length good_bands) n_bundles n_atmospheres target_sensor
                       output_spec axis
      in (Inl (NameError ''envi''), w2))"

text \<open>The whole script: the simulation, then the export.\<close>

definition soil_script ::
  "string \<Rightarrow> nat \<Rightarrow> nat \<Rightarrow> string \<Rightarrow> real list \<Rightarrow> externals \<Rightarrow> draws \<Rightarrow> world
     \<Rightarrow> (error + unit) \<times> world"
where
  "soil_script output_base n_atmospheres n_bundles target_sensor wl ext d w0 =
     (case soil_simulation output_base n_atmospheres n_bundles target_sensor wl ext d w0 of
        (Inl e, w) \<Rightarrow> (Inl e, w)
      | (Inr (good_bands, a, axis), w) \<Rightarrow>
          soil_export output_base n_atmospheres n_bundles target_sensor good_bands a axis w)"


section \<open>Observations and the layout the specification describes\<close>

text \<open>What a CSV or \<^verbatim>\<open>.sli\<close> file at a path holds (empty when there is no such file).\<close>

definition csv_rows :: "world \<Rightarrow> string \<Rightarrow> real list list" where
  "csv_rows w path = (case files w path of Some (CsvFile rows) \<Rightarrow> rows | _ \<Rightarrow> [])"

definition sli_values :: "world \<Rightarrow> string \<Rightarrow> real list" where
  "sli_values w path = (case files w path of Some (SliFile xs) \<Rightarrow> xs | _ \<Rightarrow> [])"

text \<open>The entries the run from \<open>w\<close> to \<open>w'\<close> added to the log of invocations.\<close>

definition new_invocations :: "world \<Rightarrow> world \<Rightarrow> (call \<times> error option) list" where
  "new_invocations w w' = drop (length (invocations w)) (invocations w')"

definition returned :: "call \<times> error option \<Rightarrow> bool" where
  "returned x \<longleftrightarrow> snd x = None"

text \<open>
  A step extends the log, and when it completes all it added are invocations that
  returned, \<open>n\<close> of them.
\<close>

definition log_step :: "world \<Rightarrow> world \<Rightarrow> bool \<Rightarrow> nat \<Rightarrow> bool" where
  "log_step w w' completed n \<longleftrightarrow>
     (\<exists>new. invocations w' = invocations w @ new \<and>
        (if completed then length new = n \<and> list_all returned new else True))"

text \<open>
  A log entry and the column it accounts for in the soil script: the entry is a 6S run
  that returned, and the column holds the good bands of the results of that run.
\<close>

fun stored_spectrum :: "externals \<Rightarrow> nat list \<Rightarrow> call \<times> error option \<Rightarrow> real list \<Rightarrow> bool" where
  "stored_spectrum ext gb (SixsCall rn s wl_arg out, None) col =
     (case run_sixs_params ext rn s wl_arg out of
        Inl e \<Rightarrow> False
      | Inr (wls, results) \<Rightarrow> fancy_index results gb = Inr col)"
| "stored_spectrum ext gb _ col = False"

text \<open>
  The wavelengths a logged 6S run returned, and the axis a log entry accounts for: the
  good bands of those wavelengths.
\<close>

fun wavelengths_of :: "externals \<Rightarrow> call \<times> error option \<Rightarrow> real list option" where
  "wavelengths_of ext (SixsCall rn s wl_arg out, None) =
     (case run_sixs_params ext rn s wl_arg out of
        Inl e \<Rightarrow> None
      | Inr (wls, results) \<Rightarrow> Some wls)"
| "wavelengths_of ext _ = None"

definition stored_axis :: "externals \<Rightarrow> nat list \<Rightarrow> call \<times> error option \<Rightarrow> real list \<Rightarrow> bool" where
  "stored_axis ext gb entry axis \<longleftrightarrow>
     (case wavelengths_of ext entry of
        None \<Rightarrow> False
      | Some wls \<Rightarrow> fancy_index wls gb = Inr axis)"

text \<open>
  The invariant of the soil loops on the variable \<^verbatim>\<open>wavelengths\<close>, for a run that
  started in the world \<open>w0\<close>: once bound, it holds what the last logged 6S run
  returned, and that run is one of this run's.
\<close>

definition wavelengths_from_last_run :: "externals \<Rightarrow> world \<Rightarrow> vars \<Rightarrow> world \<Rightarrow> bool" where
  "wavelengths_from_last_run ext w0 v w \<longleftrightarrow>
     length (invocations w0) \<le> length (invocations w) \<and>
     (case wavelengths v of
        None \<Rightarrow> True
      | Some wls \<Rightarrow>
          length (invocations w0) < length (invocations w) \<and>
          wavelengths_of ext (last (invocations w)) = Some wls)"

text \<open>
  A loop segment that fills the columns \<open>cols\<close> in order: the log grows by one entry
  per column, each entry's spectrum is what the column holds afterwards, and every other
  column is as before.
\<close>

definition fills ::
  "externals \<Rightarrow> nat list \<Rightarrow> nat list \<Rightarrow> ndarray \<Rightarrow> world \<Rightarrow> ndarray \<Rightarrow> world \<Rightarrow> bool" where
  "fills ext gb cols a w a' w' \<longleftrightarrow>
     (\<exists>new. invocations w' = invocations w @ new \<and> length new = length cols \<and>
        (\<forall>k<length cols. stored_spectrum ext gb (new ! k) (column a' (cols ! k)))) \<and>
     (\<forall>c. c \<notin> set cols \<longrightarrow> column a' c = column a c)"

text \<open>
  The order the specification gives for the \<^verbatim>\<open>.sli\<close> file, written from its words and
  not from the code: for \<open>nb\<close> bands, all the spectra's values for band 1, then all the
  spectra's values for band 2, and so on, the spectra in order within each band.
\<close>

definition spec_band_sequential :: "nat \<Rightarrow> real list list \<Rightarrow> real list" where
  "spec_band_sequential nb spectra_list =
     concat (map (\<lambda>b. map (\<lambda>s. s ! b) spectra_list) [0..<nb])"

text \<open>Shape of an array, and the two invariants of the sampling loop.\<close>

definition has_shape :: "nat \<Rightarrow> nat \<Rightarrow> ndarray \<Rightarrow> bool" where
  "has_shape r m a \<longleftrightarrow> length a = r \<and> list_all (\<lambda>row. length row = m) a"

definition within_intervals :: "params \<Rightarrow> bool" where
  "within_intervals p \<longleftrightarrow>
     list_all (\<lambda>x. 5 \<le> x \<and> x \<le> 75) (chloro p) \<and>
     list_all (\<lambda>x. 1.5 \<le> x \<and> x \<le> 15) (caroten p) \<and>
     list_all (\<lambda>x. 0.0022 \<le> x \<and> x \<le> 0.0365) (LMA p) \<and>
     list_all (\<lambda>x. 0.1 \<le> x \<and> x \<le> 18) (LAI p)"

definition fixed_geometry :: "params \<Rightarrow> bool" where
  "fixed_geometry p \<longleftrightarrow>
     list_all (\<lambda>x. x = 20) (s_za p) \<and> list_all (\<lambda>x. x = 0) (v_az p) \<and>
     list_all (\<lambda>x. x = 0) (v_za p)"

section \<open>Concrete runs\<close>

text \<open>
  A random stream, a stub canopy model with five bands, and the run of the vegetation
  script with three bundles on them. In the stream the second raw variate makes the
  first chlorophyll draw 95, which the rejection loop discards; the variates at 23 and 35
  give the second and third bundle the solar azimuths 180 and 90. The stub model reports
  the chlorophyll, the leaf area index, the solar azimuth, the solar zenith and the view
  zenith it was called with.
\<close>

definition empty_world :: world where
  "empty_world = \<lparr> files = Map.empty, invocations = [] \<rparr>"

definition demo_stream :: rstream where
  "demo_stream k = (if k = 1 then 2 else if k = 14 then 1 / 3 else if k = 23 then 1 / 2
     else if k = 26 then - (1 / 2) else if k = 35 then 1 / 4 else 0)"

definition five_band_model :: canopy_model where
  "five_band_model a = Inr [(0.4, arg_chloro a), (0.5, arg_LAI a), (0.6, arg_solar_azimuth a),
     (0.7, arg_solar_zenith a), (0.8, arg_view_zenith a)]"

definition failing_model :: canopy_model where
  "failing_model a = (if arg_chloro a = 45 then Inl (ExternalError ''prosail'')
     else five_band_model a)"

definition demo_params :: params where
  "demo_params = \<lparr> N = [1.3, 1.3, 1.3], chloro = [35, 45, 20],
      caroten = [7.5, 7.5, 7.5], brown = [0, 0, 0],
      EWT = [0.002, 0.002, 0.002], LMA = [0.012, 0.012, 0.012],
      soil_reflectance = [0, 0, 0], LAI = [3, 3, 3],
      hot_spot = [0.05, 0.05, 0.05],
      LAD_inclination = [- 0.4, - 0.4, - 0.4],
      LAD_bimodality = [- 0.1, - 0.1, - 0.1],
      s_az = [0, 180, 90], s_za = [20, 20, 20], v_az = [0, 0, 0],
      v_za = [0, 0, 0] \<rparr>"

text \<open>
  The call the run makes for the bundle with chlorophyll \<open>chl\<close>: every call carries
  the solar azimuth 90.
\<close>

definition demo_call :: "real \<Rightarrow> call" where
  "demo_call chl = ProsailCall \<lparr> arg_N = 1.3, arg_chloro = chl, arg_caroten = 7.5,
     arg_brown = 0, arg_EWT = 0.002, arg_LMA = 0.012, arg_soil_reflectance = 0, arg_LAI = 3,
     arg_hot_spot = 0.05, arg_solar_zenith = 20, arg_solar_azimuth = 90, arg_view_zenith = 0,
     arg_view_azimuth = 0, arg_LIDF = (- 0.4, - 0.1) \<rparr>"

definition demo_header :: metadata where
  "demo_header = \<lparr> samples = 5, lines = 3, bands = 1, data_type = 5, header_offset = 0,
        interleave = ''bsq'', byte_order = 0, sensor_type = ''prosail'',
        spectra_names = [''veg bundle 1'', ''veg bundle 2'', ''veg bundle 3''],
        wavelength_units = ''micrometers'',
        wavelength = [0.4, 0.5, 0.6, 0.7, 0.8] \<rparr>"

definition demo_world :: world where
  "demo_world = \<lparr> files = [''lib_speclib.csv'' \<mapsto> CsvFile
       [[0.4, 0.5, 0.6, 0.7, 0.8], [35, 3, 90, 20, 0], [45, 3, 90, 20, 0], [20, 3, 90, 20, 0]],
     ''lib_speclib.sli'' \<mapsto> SliFile [35, 3, 90, 20, 0, 45, 3, 90, 20, 0, 20, 3, 90, 20, 0],
     ''lib_speclib.hdr'' \<mapsto> HdrFile demo_header],
     invocations = [(demo_call 35, None), (demo_call 45, None), (demo_call 20, None)] \<rparr>"

text \<open>
  A run with one bundle and a stub model with two bands whose reflectances, 35 / 16 and
  3 / 16, have four decimals: the CSV holds them rounded, the \<^verbatim>\<open>.sli\<close> file as
  they are.
\<close>

definition sixteenth_model :: canopy_model where
  "sixteenth_model a = Inr [(0.4, arg_chloro a / 16), (0.5, arg_LAI a / 16)]"

definition first_bundle :: params where
  "first_bundle = \<lparr> N = [1.3], chloro = [35], caroten = [7.5], brown = [0], EWT = [0.002],
      LMA = [0.012], soil_reflectance = [0], LAI = [3], hot_spot = [0.05],
      LAD_inclination = [- 0.4], LAD_bimodality = [- 0.1], s_az = [0], s_za = [20],
      v_az = [0], v_za = [0] \<rparr>"

definition rounding_world :: world where
  "rounding_world = \<lparr> files = [''fine_speclib.csv'' \<mapsto> CsvFile [[0.4, 0.5], [2.188, 0.188]],
     ''fine_speclib.sli'' \<mapsto> SliFile [2.1875, 0.1875],
     ''fine_speclib.hdr'' \<mapsto> HdrFile \<lparr> samples = 2, lines = 1, bands = 1, data_type = 5,
        header_offset = 0, interleave = ''bsq'', byte_order = 0, sensor_type = ''prosail'',
        spectra_names = [''veg bundle 1''], wavelength_units = ''micrometers'',
        wavelength = [0.4, 0.5] \<rparr>],
     invocations = [(ProsailCall \<lparr> arg_N = 1.3, arg_chloro = 35, arg_caroten = 7.5,
       arg_brown = 0, arg_EWT = 0.002, arg_LMA = 0.012, arg_soil_reflectance = 0, arg_LAI = 3,
       arg_hot_spot = 0.05, arg_solar_zenith = 20, arg_solar_azimuth = 0, arg_view_zenith = 0,
       arg_view_azimuth = 0, arg_LIDF = (- 0.4, - 0.1) \<rparr>, None)] \<rparr>"

definition failed_world :: world where
  "failed_world = \<lparr> files = Map.empty,
     invocations = [(demo_call 35, None), (demo_call 45, Some (ExternalError ''prosail''))] \<rparr>"

text \<open>
  A run of the soil script with two atmospheres, three bundles and the custom sensor on
  five wavelengths. The stub 6S run returns the wavelengths it was given, each raised
  by the aerosol optical thickness; the failing variant raises for the second atmosphere.
  The run ends at line 299 with the CSV, the \<^verbatim>\<open>.sli\<close> file and the two 6S input
  files written and no header; \<open>soil_demo_header\<close> is the dictionary it has built by
  then. In the third variant every soil file is tagged \<^verbatim>\<open>Unknown\<close>.
\<close>

definition demo_soil :: soil where
  "demo_soil = \<lparr> band_unit = ''Nanometers'', band_centers = [400, 500, 2500],
     spectra = [[0.1, 0.2, 0.3]] \<rparr>"

definition unknown_unit_soil :: soil where
  "unknown_unit_soil = \<lparr> band_unit = ''Unknown'', band_centers = [400, 500, 2500],
     spectra = [[0.1, 0.2, 0.3]] \<rparr>"

definition demo_sixs :: sixs where
  "demo_sixs = \<lparr> aero_profile_of = Continental, atmos_profile_of = Tropical, aot550 = 0,
     geometry_of = \<lparr> geo_solar_a = 0, geo_solar_z = 0, geo_view_a = 0, geo_view_z = 0 \<rparr>,
     ground_reflectance_of = DefaultGround \<rparr>"

definition demo_run_sixs ::
  "runner \<Rightarrow> sixs \<Rightarrow> real list option \<Rightarrow> string \<Rightarrow> error + real list \<times> real list" where
  "demo_run_sixs rn s wl out =
     (case wl of
        None \<Rightarrow> Inr ([0.5, 0.6, 0.7, 0.8], [aot550 s, aot550 s, aot550 s, aot550 s])
      | Some ws \<Rightarrow> Inr (ws, map (\<lambda>x. x + aot550 s) ws))"

definition failing_run_sixs ::
  "runner \<Rightarrow> sixs \<Rightarrow> real list option \<Rightarrow> string \<Rightarrow> error + real list \<times> real list" where
  "failing_run_sixs rn s wl out =
     (if aot550 s = 2 then Inl (ExternalError ''sixs'') else demo_run_sixs rn s wl out)"

definition demo_externals :: externals where
  "demo_externals = \<lparr> readJFSC = (\<lambda>path. Inr demo_soil), remove_water_bands = Inr,
     run_sixs_params = demo_run_sixs, sixs_initial = demo_sixs \<rparr>"

definition failing_externals :: externals where
  "failing_externals = \<lparr> readJFSC = (\<lambda>path. Inr demo_soil), remove_water_bands = Inr,
     run_sixs_params = failing_run_sixs, sixs_initial = demo_sixs \<rparr>"

definition unknown_unit_externals :: externals where
  "unknown_unit_externals = \<lparr> readJFSC = (\<lambda>path. Inr unknown_unit_soil),
     remove_water_bands = Inr, run_sixs_params = demo_run_sixs, sixs_initial = demo_sixs \<rparr>"

definition demo_draws :: draws where
  "demo_draws = \<lparr> atmos_profile_ind = [0, 0], aero_profile_ind = [0, 1],
     ground_reflectance_ind = [0, 0], aot = [1, 2], solar_a = [10, 20],
     solar_z = [30, 40], view_a_raw = [1, 4], view_z = [0, 1], srnd = [2, 0, 5] \<rparr>"

definition demo_wl :: "real list" where
  "demo_wl = [0.4, 0.5, 0.6, 0.7, 0.8]"

definition demo_sixs_1 :: sixs where
  "demo_sixs_1 = \<lparr> aero_profile_of = Continental, atmos_profile_of = Tropical, aot550 = 1,
     geometry_of = \<lparr> geo_solar_a = 10, geo_solar_z = 30, geo_view_a = 358.5, geo_view_z = 0 \<rparr>,
     ground_reflectance_of = Ground HomogeneousLambertian ([0.4, 0.5, 2.5], [0.1, 0.2, 0.3]) \<rparr>"

definition demo_sixs_2 :: sixs where
  "demo_sixs_2 = \<lparr> aero_profile_of = BiomassBurning, atmos_profile_of = Tropical, aot550 = 2,
     geometry_of = \<lparr> geo_solar_a = 20, geo_solar_z = 40, geo_view_a = 1.5, geo_view_z = 1 \<rparr>,
     ground_reflectance_of = Ground HomogeneousLambertian ([0.4, 0.5, 2.5], [0.1, 0.2, 0.3]) \<rparr>"

definition demo_sixs_call :: "sixs \<Rightarrow> call" where
  "demo_sixs_call s = SixsCall run_wavelengths s (Some demo_wl) ''apparent_reflectance''"

definition soil_demo_header :: metadata where
  "soil_demo_header = \<lparr> samples = 5, lines = 6, bands = 1, data_type = 5, header_offset = 0,
        interleave = ''bsq'', byte_order = 0, sensor_type = ''custom'',
        spectra_names = [''Soil bundle 001'', ''Soil bundle 002'', ''Soil bundle 003''],
        wavelength_units = ''micrometers'',
        wavelength = [0.4, 0.5, 0.6, 0.7, 0.8] \<rparr>"

definition soil_demo_world :: world where
  "soil_demo_world = \<lparr> files = [
       ''soil_atm_01.sixs'' \<mapsto> SixsFile demo_sixs_1,
       ''soil_atm_02.sixs'' \<mapsto> SixsFile demo_sixs_2,
       ''soil_speclib.csv'' \<mapsto> CsvFile
         [[0.4, 0.5, 0.6, 0.7, 0.8],
          [1.4, 1.5, 1.6, 1.7, 1.8], [1.4, 1.5, 1.6, 1.7, 1.8], [1.4, 1.5, 1.6, 1.7, 1.8],
          [2.4, 2.5, 2.6, 2.7, 2.8], [2.4, 2.5, 2.6, 2.7, 2.8], [2.4, 2.5, 2.6, 2.7, 2.8]],
       ''soil_speclib.sli'' \<mapsto> SliFile
         [1.4, 1.5, 1.6, 1.7, 1.8, 1.4, 1.5, 1.6, 1.7, 1.8, 1.4, 1.5, 1.6, 1.7, 1.8,
          2.4, 2.5, 2.6, 2.7, 2.8, 2.4, 2.5, 2.6, 2.7, 2.8, 2.4, 2.5, 2.6, 2.7, 2.8]],
     invocations = [(demo_sixs_call demo_sixs_1, None), (demo_sixs_call demo_sixs_1, None),
       (demo_sixs_call demo_sixs_1, None), (demo_sixs_call demo_sixs_2, None),
       (demo_sixs_call demo_sixs_2, None), (demo_sixs_call demo_sixs_2, None)] \<rparr>"

definition raw_ground :: ground where
  "raw_ground = Ground HomogeneousLambertian ([400, 500, 2500], [0.1, 0.2, 0.3])"

definition unknown_unit_world :: world where
  "unknown_unit_world = \<lparr> files = [
       ''soil_atm_01.sixs'' \<mapsto> SixsFile (demo_sixs_1\<lparr>ground_reflectance_of := raw_ground\<rparr>),
       ''soil_atm_02.sixs'' \<mapsto> SixsFile (demo_sixs_2\<lparr>ground_reflectance_of := raw_ground\<rparr>),
       ''soil_speclib.csv'' \<mapsto> CsvFile
         [[0.4, 0.5, 0.6, 0.7, 0.8],
          [1.4, 1.5, 1.6, 1.7, 1.8], [1.4, 1.5, 1.6, 1.7, 1.8], [1.4, 1.5, 1.6, 1.7, 1.8],
          [2.4, 2.5, 2.6, 2.7, 2.8], [2.4, 2.5, 2.6, 2.7, 2.8], [2.4, 2.5, 2.6, 2.7, 2.8]],
       ''soil_speclib.sli'' \<mapsto> SliFile
         [1.4, 1.5, 1.6, 1.7, 1.8, 1.4, 1.5, 1.6, 1.7, 1.8, 1.4, 1.5, 1.6, 1.7, 1.8,
          2.4, 2.5, 2.6, 2.7, 2.8, 2.4, 2.5, 2.6, 2.7, 2.8, 2.4, 2.5, 2.6, 2.7, 2.8]],
     invocations =
       [(demo_sixs_call (demo_sixs_1\<lparr>ground_reflectance_of := raw_ground\<rparr>), None),
        (demo_sixs_call (demo_sixs_1\<lparr>ground_reflectance_of := raw_ground\<rparr>), None),
        (demo_sixs_call (demo_sixs_1\<lparr>ground_reflectance_of := raw_ground\<rparr>), None),
        (demo_sixs_call (demo_sixs_2\<lparr>ground_reflectance_of := raw_ground\<rparr>), None),
        (demo_sixs_call (demo_sixs_2\<lparr>ground_reflectance_of := raw_ground\<rparr>), None),
        (demo_sixs_call (demo_sixs_2\<lparr>ground_reflectance_of := raw_ground\<rparr>), None)] \<rparr>"

definition soil_failed_world :: world where
  "soil_failed_world = \<lparr> files = [''soil_atm_01.sixs'' \<mapsto> SixsFile demo_sixs_1],
     invocations = [(demo_sixs_call demo_sixs_1, None), (demo_sixs_call demo_sixs_1, None),
       (demo_sixs_call demo_sixs_1, None),
       (demo_sixs_call demo_sixs_2, Some (ExternalError ''sixs''))] \<rparr>"

section \<open>Properties of the sampler\<close>

lemmas rejection_loop_induct =
  rejection_loop.raw_induct[where xa = "((((((rs, mu), sigma), lo), hi), x), k)"
    for rs mu sigma lo hi x k, simplified]

lemma rejection_loop_in_range:
  assumes "rejection_loop rs mu sigma lo hi x k = Some r"
  shows "lo \<le> fst r \<and> fst r \<le> hi"
proof (rule rejection_loop_induct[where P = "\<lambda>rs mu sigma lo hi x k r. lo \<le> fst r \<and> fst r \<le> hi",
      OF _ assms])
  fix loop rs mu sigma lo hi x k and r :: "real \<times> nat"
  assume IH: "\<And>rs mu sigma lo hi x k r.
      loop rs mu sigma lo hi x k = Some r \<Longrightarrow> lo \<le> fst r \<and> fst r \<le> hi"
    and step: "(if x < lo \<or> hi < x
          then loop rs mu sigma lo hi (fst (gauss rs mu sigma k)) (snd (gauss rs mu sigma k))
          else Some (x, k)) = Some r"
  show "lo \<le> fst r \<and> fst r \<le> hi"
  proof (cases "x < lo \<or> hi < x")
    case True
    with step IH show ?thesis by simp
  next
    case False
    with step show ?thesis by auto
  qed
qed

lemma gauss_truncated_in_range:
  "gauss_truncated rs mu sigma lo hi k = Some (y, k') \<Longrightarrow> lo \<le> y \<and> y \<le> hi"
  unfolding gauss_truncated_def by (drule rejection_loop_in_range) simp

lemma sample_bundle_within:
  assumes "sample_bundle rs p k = Some (p', k')" and "within_intervals p"
  shows "within_intervals p'"
  using assms
  unfolding sample_bundle_def within_intervals_def
  by (auto split: prod.splits Option.bind_splits dest!: gauss_truncated_in_range)

lemma sample_loop_within:
  "sample_loop rs n p k = Some (p', k') \<Longrightarrow> within_intervals p \<Longrightarrow> within_intervals p'"
proof (induction n arbitrary: p k)
  case 0
  then show ?case by simp
next
  case (Suc n)
  then show ?case
    by (auto split: option.splits prod.splits dest: sample_bundle_within)
qed

lemma sample_bundle_fixed_geometry:
  "sample_bundle rs p k = Some (p', k') \<Longrightarrow> fixed_geometry p \<Longrightarrow> fixed_geometry p'"
  unfolding sample_bundle_def fixed_geometry_def
  by (auto simp: uniform_def split: prod.splits Option.bind_splits)

lemma sample_loop_fixed_geometry:
  "sample_loop rs n p k = Some (p', k') \<Longrightarrow> fixed_geometry p \<Longrightarrow> fixed_geometry p'"
proof (induction n arbitrary: p k)
  case 0
  then show ?case by simp
next
  case (Suc n)
  then show ?case
    by (auto split: option.splits prod.splits dest: sample_bundle_fixed_geometry)
qed

lemma sample_loop_lengths:
  "sample_loop rs n p k = Some (p', k') \<Longrightarrow>
     length (s_za p') = length (s_za p) + n \<and> length (v_az p') = length (v_az p) + n \<and>
     length (v_za p') = length (v_za p) + n \<and> length (s_az p') = length (s_az p) + n"
proof (induction n arbitrary: p k)
  case 0
  then show ?case by simp
next
  case (Suc n)
  from Suc.prems obtain q j where step: "sample_bundle rs p k = Some (q, j)"
    and rest: "sample_loop rs n q j = Some (p', k')"
    by (auto split: option.splits)
  from step have "length (s_za q) = Suc (length (s_za p)) \<and>
      length (v_az q) = Suc (length (v_az p)) \<and> length (v_za q) = Suc (length (v_za p)) \<and>
      length (s_az q) = Suc (length (s_az p))"
    by (auto simp: sample_bundle_def split: prod.splits Option.bind_splits)
  with Suc.IH[OF rest] show ?case by simp
qed

lemma upt_2: "[0..<2] = [0, 1]" by (simp add: upt_rec)
lemma upt_3: "[0..<3] = [0, 1, 2]" by (simp add: upt_rec)
lemma upt_4: "[0..<4] = [0, 1, 2, 3]" by (simp add: upt_rec)
lemma upt_5: "[0..<5] = [0, 1, 2, 3, 4]" by (simp add: upt_rec)
lemma upt_6: "[0..<6] = [0, 1, 2, 3, 4, 5]" by (simp add: upt_rec)
lemma upt_7: "[0..<7] = [0, 1, 2, 3, 4, 5, 6]" by (simp add: upt_rec)

lemma demo_sample: "sample_params demo_stream 3 = Some (demo_params, 37)"
  by (simp add: sample_params_def numeral_3_eq_3 sample_bundle_def empty_params_def uniform_def
      gauss_def gauss_truncated_def demo_stream_def rejection_loop.simps demo_params_def)

text \<open>
  C3: every value of a Gaussian parameter that leaves the rejection loop, and so enters
  the lists handed to the model, lies in the declared interval: chlorophyll in [5, 75],
  carotenoids in [1.5, 15], leaf mass per area in [0.0022, 0.0365], leaf area index in
  [0.1, 18], for every number of bundles and every random stream on which the sampling
  returns.
\<close>

theorem sampled_values_within_intervals:
  "sample_params rs n_bundles = Some (p, k) \<Longrightarrow>
     (\<forall>x\<in>set (chloro p). 5 \<le> x \<and> x \<le> 75) \<and>
     (\<forall>x\<in>set (caroten p). 1.5 \<le> x \<and> x \<le> 15) \<and>
     (\<forall>x\<in>set (LMA p). 0.0022 \<le> x \<and> x \<le> 0.0365) \<and>
     (\<forall>x\<in>set (LAI p). 0.1 \<le> x \<and> x \<le> 18)"
proof -
  assume "sample_params rs n_bundles = Some (p, k)"
  then have "sample_loop rs n_bundles empty_params 0 = Some (p, k)"
    by (simp add: sample_params_def)
  moreover have "within_intervals empty_params"
    by (simp add: within_intervals_def empty_params_def)
  ultimately have "within_intervals p"
    by (rule sample_loop_within)
  then show ?thesis
    by (simp add: within_intervals_def list_all_iff)
qed

theorem sampled_values_within_intervals_witness:
  "sample_params demo_stream 3 = Some (demo_params, 37) \<and>
     chloro demo_params = [35, 45, 20] \<and>
     list_all (\<lambda>x. 5 \<le> x \<and> x \<le> 75) (chloro demo_params) \<and>
     list_all (\<lambda>x. 1.5 \<le> x \<and> x \<le> 15) (caroten demo_params) \<and>
     list_all (\<lambda>x. 0.0022 \<le> x \<and> x \<le> 0.0365) (LMA demo_params) \<and>
     list_all (\<lambda>x. 0.1 \<le> x \<and> x \<le> 18) (LAI demo_params)"
  using sampled_values_within_intervals[OF demo_sample] demo_sample
  by (simp add: list_all_iff) (simp add: demo_params_def)

text \<open>
  C10: in the vegetation script every sampled solar zenith angle is exactly 20 and every
  view azimuth and view zenith is exactly 0, one of each per bundle; the solar azimuth is
  the geometry parameter that varies: there are runs in which two bundles get different
  solar azimuths.
\<close>

theorem veg_geometry_fixed_except_solar_azimuth:
  "(sample_params rs n_bundles = Some (p, k) \<longrightarrow>
      length (s_za p) = n_bundles \<and> (\<forall>x\<in>set (s_za p). x = 20) \<and>
      length (v_az p) = n_bundles \<and> (\<forall>x\<in>set (v_az p). x = 0) \<and>
      length (v_za p) = n_bundles \<and> (\<forall>x\<in>set (v_za p). x = 0)) \<and>
   (\<exists>rs' p' k'. sample_params rs' 3 = Some (p', k') \<and> s_az p' ! 0 \<noteq> s_az p' ! 1)"
proof
  show "sample_params rs n_bundles = Some (p, k) \<longrightarrow>
      length (s_za p) = n_bundles \<and> (\<forall>x\<in>set (s_za p). x = 20) \<and>
      length (v_az p) = n_bundles \<and> (\<forall>x\<in>set (v_az p). x = 0) \<and>
      length (v_za p) = n_bundles \<and> (\<forall>x\<in>set (v_za p). x = 0)"
  proof
    assume "sample_params rs n_bundles = Some (p, k)"
    then have run: "sample_loop rs n_bundles empty_params 0 = Some (p, k)"
      by (simp add: sample_params_def)
    have "fixed_geometry empty_params"
      by (simp add: fixed_geometry_def empty_params_def)
    with run have "fixed_geometry p"
      by (rule sample_loop_fixed_geometry)
    moreover from sample_loop_lengths[OF run]
    have "length (s_za p) = n_bundles \<and> length (v_az p) = n_bundles \<and>
        length (v_za p) = n_bundles"
      by (simp add: empty_params_def)
    ultimately show "length (s_za p) = n_bundles \<and> (\<forall>x\<in>set (s_za p). x = 20) \<and>
      length (v_az p) = n_bundles \<and> (\<forall>x\<in>set (v_az p). x = 0) \<and>
      length (v_za p) = n_bundles \<and> (\<forall>x\<in>set (v_za p). x = 0)"
      by (simp add: fixed_geometry_def list_all_iff)
  qed
next
  have "s_az demo_params ! 0 \<noteq> s_az demo_params ! 1"
    by (simp add: demo_params_def)
  with demo_sample
  show "\<exists>rs' p' k'. sample_params rs' 3 = Some (p', k') \<and> s_az p' ! 0 \<noteq> s_az p' ! 1"
    by blast
qed

theorem veg_geometry_fixed_except_solar_azimuth_witness:
  "sample_params demo_stream 3 = Some (demo_params, 37) \<and>
     s_az demo_params = [0, 180, 90] \<and>
     length (s_za demo_params) = 3 \<and> list_all (\<lambda>x. x = 20) (s_za demo_params) \<and>
     length (v_az demo_params) = 3 \<and> list_all (\<lambda>x. x = 0) (v_az demo_params) \<and>
     length (v_za demo_params) = 3 \<and> list_all (\<lambda>x. x = 0) (v_za demo_params)"
  using veg_geometry_fixed_except_solar_azimuth[of demo_stream 3 demo_params 37] demo_sample
  by (simp add: list_all_iff) (simp add: demo_params_def)

section \<open>Properties of the array operations\<close>

lemma has_shape_zeros: "has_shape r m (zeros r m)"
  by (simp add: has_shape_def zeros_def list_all_iff)

lemma broadcast_length: "broadcast r v = Inr w \<Longrightarrow> length w = r"
  by (auto simp: broadcast_def split: if_splits)

lemma set_column_shape:
  assumes "set_column r m a c v = Inr a'" and "has_shape r m a"
  shows "has_shape r m a'"
proof -
  from assms(1) obtain w where w: "broadcast r v = Inr w"
    and a': "a' = map2 (\<lambda>row x. row[c := x]) a w"
    by (auto simp: set_column_def split: if_splits sum.splits)
  from w have "length w = r" by (rule broadcast_length)
  with assms(2) show ?thesis
    unfolding a' has_shape_def list_all_iff by (auto dest: set_zip_leftD)
qed

lemma set_column_same:
  assumes "set_column r m a c v = Inr a'" and "has_shape r m a"
  shows "broadcast r v = Inr (column a' c)"
proof -
  from assms(1) obtain w where w: "broadcast r v = Inr w" and c: "c < m"
    and a': "a' = map2 (\<lambda>row x. row[c := x]) a w"
    by (auto simp: set_column_def split: if_splits sum.splits)
  from w have lw: "length w = r" by (rule broadcast_length)
  have "column a' c = w"
  proof (rule nth_equalityI)
    show "length (column a' c) = length w"
      using lw assms(2) by (simp add: a' column_def has_shape_def)
  next
    fix k assume "k < length (column a' c)"
    then have k: "k < r" using lw assms(2) by (simp add: a' column_def has_shape_def)
    with assms(2) have "length (a ! k) = m"
      by (simp add: has_shape_def list_all_length)
    with k c lw assms(2) show "column a' c ! k = w ! k"
      by (simp add: a' column_def has_shape_def)
  qed
  with w show ?thesis by simp
qed

lemma set_column_other:
  assumes "set_column r m a c v = Inr a'" and "has_shape r m a" and "c' \<noteq> c"
  shows "column a' c' = column a c'"
proof -
  from assms(1) obtain w where w: "broadcast r v = Inr w"
    and a': "a' = map2 (\<lambda>row x. row[c := x]) a w"
    by (auto simp: set_column_def split: if_splits sum.splits)
  from w have lw: "length w = r" by (rule broadcast_length)
  show ?thesis
  proof (rule nth_equalityI)
    show "length (column a' c') = length (column a c')"
      using lw assms(2) by (simp add: a' column_def has_shape_def)
  next
    fix k assume "k < length (column a' c')"
    then have k: "k < r" using lw assms(2) by (simp add: a' column_def has_shape_def)
    with lw assms(2,3) show "column a' c' ! k = column a c' ! k"
      by (simp add: a' column_def has_shape_def)
  qed
qed

lemma length_transpose_nd: "length (transpose_nd m a) = m"
  by (simp add: transpose_nd_def)

lemma transpose_nd_rows: "row \<in> set (transpose_nd m a) \<Longrightarrow> length row = length a"
  by (auto simp: transpose_nd_def column_def)

lemma transpose_nd_nth: "c < m \<Longrightarrow> transpose_nd m a ! c = column a c"
  by (simp add: transpose_nd_def)

lemma column_drop_first:
  assumes "has_shape r (Suc n) a"
  shows "column (drop_first_column a) c = column a (Suc c)"
  using assms
  by (auto simp: column_def drop_first_column_def has_shape_def list_all_iff)

lemma transpose_drop_first:
  assumes "has_shape r (Suc n) a"
  shows "transpose_nd n (drop_first_column a) = tl (transpose_nd (Suc n) a)"
proof -
  have "tl (transpose_nd (Suc n) a) = map (column a) (tl [0..<Suc n])"
    by (simp only: transpose_nd_def map_tl)
  also have "tl [0..<Suc n] = map Suc [0..<n]"
    by (simp only: map_Suc_upt) (simp add: upt_conv_Cons del: upt_Suc)
  finally show ?thesis
    by (simp add: transpose_nd_def column_drop_first[OF assms] comp_def)
qed

lemma concat_uniform_length:
  "list_all (\<lambda>xs. length xs = k) xss \<Longrightarrow> length (concat xss) = length xss * k"
  by (induction xss) simp_all

lemma concat_uniform_nth:
  "list_all (\<lambda>xs. length xs = k) xss \<Longrightarrow> s < length xss \<Longrightarrow> b < k \<Longrightarrow>
     concat xss ! (s * k + b) = xss ! s ! b"
proof (induction xss arbitrary: s)
  case Nil
  then show ?case by simp
next
  case (Cons xs xss)
  show ?case
  proof (cases s)
    case 0
    with Cons.prems show ?thesis by (simp add: nth_append)
  next
    case (Suc s')
    with Cons.prems have "concat xss ! (s' * k + b) = xss ! s' ! b"
      by (intro Cons.IH) simp_all
    moreover from Cons.prems have "length xs = k" by simp
    ultimately show ?thesis
      using Suc by (simp add: nth_append)
  qed
qed

text \<open>
  What the three artifacts hold when they are written from an array \<open>a\<close> with \<open>nb\<close>
  rows and \<open>n + 1\<close> columns: the CSV has one row per column of \<open>a\<close>, and the
  \<^verbatim>\<open>.sli\<close> file is the CSV's rows after the first, one after the other.
\<close>

lemma artifact_layout:
  assumes "has_shape nb (Suc n) a"
  defines "rows \<equiv> transpose_nd (Suc n) a"
    and "vals \<equiv> tofile (transpose_nd n (drop_first_column a))"
  shows "length rows = Suc n" and "list_all (\<lambda>row. length row = nb) rows"
    and "rows ! 0 = column a 0" and "vals = concat (tl rows)"
    and "length vals = n * nb"
    and "\<And>s b. s < n \<Longrightarrow> b < nb \<Longrightarrow> vals ! (s * nb + b) = rows ! Suc s ! b"
proof -
  from assms(1) have la: "length a = nb" by (simp add: has_shape_def)
  show len: "length rows = Suc n" by (simp add: rows_def length_transpose_nd)
  show all: "list_all (\<lambda>row. length row = nb) rows"
    unfolding list_all_iff rows_def using la by (auto dest: transpose_nd_rows)
  show "rows ! 0 = column a 0" by (simp add: rows_def transpose_nd_nth)
  show vals: "vals = concat (tl rows)"
    by (simp add: vals_def rows_def tofile_def transpose_drop_first[OF assms(1)])
  from all have tl_all: "list_all (\<lambda>row. length row = nb) (tl rows)"
    by (cases rows) simp_all
  from len have tl_len: "length (tl rows) = n" by simp
  show "length vals = n * nb"
    using concat_uniform_length[OF tl_all] tl_len by (simp add: vals)
  show "vals ! (s * nb + b) = rows ! Suc s ! b" if "s < n" and "b < nb" for s b
  proof -
    from that tl_len have "concat (tl rows) ! (s * nb + b) = tl rows ! s ! b"
      by (intro concat_uniform_nth[OF tl_all]) simp_all
    also from that tl_len have "tl rows ! s = rows ! Suc s"
      by (simp add: nth_tl)
    finally show ?thesis by (simp add: vals)
  qed
qed

lemma savetxt_shape:
  "length (savetxt fmt rows) = length rows"
  "list_all (\<lambda>row. length row = nb) rows \<Longrightarrow> list_all (\<lambda>row. length row = nb) (savetxt fmt rows)"
  "k < length rows \<Longrightarrow> savetxt fmt rows ! k = map fmt (rows ! k)"
  "concat (tl (savetxt fmt rows)) = map fmt (concat (tl rows))"
  by (simp_all add: savetxt_def list_all_iff map_tl map_concat)

lemma savetxt_fmt_18e [simp]: "savetxt fmt_18e rows = rows"
proof -
  have "map fmt_18e row = row" for row
    by (induction row) (simp_all add: fmt_18e_def)
  then show ?thesis
    by (induction rows) (simp_all add: savetxt_def)
qed

section \<open>Properties of the log and the files\<close>

lemma files_log_call [simp]: "files (log_call c r w) = files w"
  by (simp add: log_call_def)

lemma invocations_log_call_Inr [simp]:
  "invocations (log_call c (Inr x) w) = invocations w @ [(c, None)]"
  by (simp add: log_call_def)

lemma invocations_log_call_Inl [simp]:
  "invocations (log_call c (Inl e) w) = invocations w @ [(c, Some e)]"
  by (simp add: log_call_def)

lemma invocations_write_file [simp]: "invocations (write_file path c w) = invocations w"
  by (simp add: write_file_def)

lemma files_write_file [simp]: "files (write_file path c w) = (files w)(path \<mapsto> c)"
  by (simp add: write_file_def)

lemma new_invocations_append:
  "invocations w' = invocations w @ new \<Longrightarrow> new_invocations w w' = new"
  by (simp add: new_invocations_def)

lemma new_invocations_same [simp]: "new_invocations w w = []"
  by (simp add: new_invocations_def)

lemma log_step_refl: "log_step w w completed 0"
  by (simp add: log_step_def)

lemma log_step_failed: "log_step w w' c n \<Longrightarrow> log_step w w' False k"
  by (auto simp: log_step_def)

lemma log_step_trans:
  "log_step w w1 True n \<Longrightarrow> log_step w1 w' c k \<Longrightarrow> log_step w w' c (n + k)"
  by (auto simp: log_step_def)

lemma log_step_log_call_Inr [simp]: "log_step w (log_call c (Inr x) w) b (Suc 0)"
  by (simp add: log_step_def returned_def)

lemma log_step_log_call_failed [simp]: "log_step w (log_call c r w) False n"
  by (simp add: log_step_def log_call_def)

lemma log_step_same_failed [simp]: "log_step w w False n"
  by (simp add: log_step_def)

lemma log_step_write_file [simp]:
  "log_step w (write_file path c w') b n \<longleftrightarrow> log_step w w' b n"
  by (simp add: log_step_def)

lemma log_stepD:
  assumes "log_step w w' completed n"
  shows "invocations w' = invocations w @ new_invocations w w'"
    and "completed \<Longrightarrow> length (new_invocations w w') = n \<and> list_all returned (new_invocations w w')"
  using assms by (auto simp: log_step_def new_invocations_def)

section \<open>Properties of the vegetation driver\<close>

lemma veg_loop_files: "veg_loop run p i nb m js st w = (r, w') \<Longrightarrow> files w' = files w"
proof (induction js arbitrary: st w)
  case Nil
  then show ?case by simp
next
  case (Cons j js)
  then show ?case
    by (auto split: sum.splits)
qed

lemma veg_loop_step:
  assumes "veg_loop run p i nb m (j # js) st w = (Inr st', w')"
  obtains args s a where "bundle_args p j i = Inr args" and "run args = Inr s"
    and "set_column nb m (fst st) (Suc j) (map snd s) = Inr a"
    and "veg_loop run p i nb m js (a, Some s) (log_call (ProsailCall args) (run args) w)
           = (Inr st', w')"
  using assms by (auto split: sum.splits)

lemma veg_loop_log:
  "veg_loop run p i nb m js st w = (r, w') \<Longrightarrow> log_step w w' (\<not> isl r) (length js)"
proof (induction js arbitrary: st w)
  case Nil
  then show ?case by (auto simp: log_step_refl)
next
  case (Cons j js)
  show ?case
  proof (cases "bundle_args p j i")
    case (Inl e)
    with Cons.prems show ?thesis by (auto simp: log_step_def)
  next
    case args: (Inr args)
    show ?thesis
    proof (cases "run args")
      case (Inl e)
      with Cons.prems args show ?thesis by auto
    next
      case run: (Inr s)
      have one: "log_step w (log_call (ProsailCall args) (run args) w) True 1"
        unfolding run by simp
      show ?thesis
      proof (cases "set_column nb m (fst st) (j + 1) (map snd s)")
        case (Inl e)
        with Cons.prems args run have "r = Inl e"
          and "w' = log_call (ProsailCall args) (run args) w"
          by simp_all
        with one show ?thesis by (auto dest: log_step_failed)
      next
        case (Inr a)
        with Cons.prems args run
        have "veg_loop run p i nb m js (a, Some s) (log_call (ProsailCall args) (run args) w)
                = (r, w')"
          by simp
        from log_step_trans[OF one Cons.IH[OF this]] show ?thesis by simp
      qed
    qed
  qed
qed

lemma veg_loop_shape:
  "veg_loop run p i nb m js st w = (Inr st', w') \<Longrightarrow> has_shape nb m (fst st) \<Longrightarrow>
     has_shape nb m (fst st')"
proof (induction js arbitrary: st w)
  case Nil
  then show ?case by auto
next
  case (Cons j js)
  from Cons.prems(1) obtain args s a
    where col: "set_column nb m (fst st) (Suc j) (map snd s) = Inr a"
    and rest: "veg_loop run p i nb m js (a, Some s) (log_call (ProsailCall args) (run args) w)
                 = (Inr st', w')"
    by (rule veg_loop_step)
  from col Cons.prems(2) have "has_shape nb m a" by (rule set_column_shape)
  with Cons.IH[OF rest] show ?case by simp
qed

lemma veg_loop_untouched:
  "veg_loop run p i nb m js st w = (Inr st', w') \<Longrightarrow> has_shape nb m (fst st) \<Longrightarrow>
     c \<notin> Suc ` set js \<Longrightarrow> column (fst st') c = column (fst st) c"
proof (induction js arbitrary: st w)
  case Nil
  then show ?case by auto
next
  case (Cons j js)
  from Cons.prems(1) obtain args s a
    where col: "set_column nb m (fst st) (Suc j) (map snd s) = Inr a"
    and rest: "veg_loop run p i nb m js (a, Some s) (log_call (ProsailCall args) (run args) w)
                 = (Inr st', w')"
    by (rule veg_loop_step)
  from col Cons.prems(2) have shape: "has_shape nb m a" by (rule set_column_shape)
  from Cons.prems(3) have "c \<notin> Suc ` set js" and "c \<noteq> Suc j" by auto
  with Cons.IH[OF rest] shape have "column (fst st') c = column a c" by simp
  also from col Cons.prems(2) \<open>c \<noteq> Suc j\<close> have "column a c = column (fst st) c"
    by (rule set_column_other)
  finally show ?case .
qed

lemma veg_loop_columns:
  "veg_loop run p i nb m js st w = (Inr st', w') \<Longrightarrow> has_shape nb m (fst st) \<Longrightarrow>
     distinct js \<Longrightarrow> j \<in> set js \<Longrightarrow>
     \<exists>args s. bundle_args p j i = Inr args \<and> run args = Inr s \<and>
       broadcast nb (map snd s) = Inr (column (fst st') (Suc j))"
proof (induction js arbitrary: st w)
  case Nil
  then show ?case by simp
next
  case (Cons k js)
  from Cons.prems(1) obtain args s a
    where args: "bundle_args p k i = Inr args" and run: "run args = Inr s"
    and col: "set_column nb m (fst st) (Suc k) (map snd s) = Inr a"
    and rest: "veg_loop run p i nb m js (a, Some s) (log_call (ProsailCall args) (run args) w)
                 = (Inr st', w')"
    by (rule veg_loop_step)
  from col Cons.prems(2) have shape: "has_shape nb m a" by (rule set_column_shape)
  show ?case
  proof (cases "j = k")
    case True
    from Cons.prems(3) have "Suc k \<notin> Suc ` set js" by auto
    with veg_loop_untouched[OF rest, of "Suc k"] shape
    have "column (fst st') (Suc k) = column a (Suc k)"
      by simp
    moreover from col Cons.prems(2) have "broadcast nb (map snd s) = Inr (column a (Suc k))"
      by (rule set_column_same)
    ultimately show ?thesis using args run True by auto
  next
    case False
    with Cons.prems(3,4) have "distinct js" and "j \<in> set js" by auto
    with Cons.IH[OF rest] shape show ?thesis by simp
  qed
qed

lemma veg_loop_last:
  "veg_loop run p i nb m js st w = (Inr st', w') \<Longrightarrow> js \<noteq> [] \<Longrightarrow>
     \<exists>args s. bundle_args p (last js) i = Inr args \<and> run args = Inr s \<and> snd st' = Some s"
proof (induction js arbitrary: st w)
  case Nil
  then show ?case by simp
next
  case (Cons k js)
  from Cons.prems(1) obtain args s a
    where args: "bundle_args p k i = Inr args" and run: "run args = Inr s"
    and rest: "veg_loop run p i nb m js (a, Some s) (log_call (ProsailCall args) (run args) w)
                 = (Inr st', w')"
    by (rule veg_loop_step)
  show ?case
  proof (cases "js = []")
    case True
    with rest args run show ?thesis by auto
  next
    case False
    with Cons.IH[OF rest] show ?thesis by simp
  qed
qed

lemma veg_driver_error_files:
  "veg_driver output_base n nb run p w = (Inl e, w') \<Longrightarrow> files w' = files w"
  unfolding veg_driver_def Let_def
  by (auto split: prod.splits sum.splits option.splits dest: veg_loop_files)

lemma veg_driver_log:
  assumes "veg_driver output_base n nb run p w = (r, w')"
  shows "log_step w w' (\<not> isl r) n"
proof -
  obtain r1 w1 where loop: "veg_loop run p (n - 1) nb (n + 1) [0..<n] (zeros nb (n + 1), None) w
      = (r1, w1)"
    by (cases "veg_loop run p (n - 1) nb (n + 1) [0..<n] (zeros nb (n + 1), None) w")
  from veg_loop_log[OF loop] have log: "log_step w w1 (\<not> isl r1) n" by simp
  show ?thesis
  proof (cases r1)
    case (Inl e)
    with assms loop log show ?thesis
      by (auto simp: veg_driver_def)
  next
    case (Inr st)
    with log have "log_step w w1 True n" by simp
    with assms loop Inr show ?thesis
      unfolding veg_driver_def Let_def
      by (auto split: option.splits sum.splits prod.splits intro: log_step_failed)
  qed
qed

lemma veg_driver_completed:
  assumes "veg_driver output_base n nb run p w = (Inr (), w')"
  obtains a where "has_shape nb (Suc n) a"
    and "files w' = (files w)
          (output_base @ ''_speclib.csv'' \<mapsto> CsvFile (savetxt fmt_3f (transpose_nd (Suc n) a)),
           output_base @ ''_speclib.sli'' \<mapsto>
             SliFile (tofile (transpose_nd n (drop_first_column a))),
           output_base @ ''_speclib.hdr'' \<mapsto>
             HdrFile \<lparr> samples = nb, lines = n, bands = 1, data_type = 5,
               header_offset = 0, interleave = ''bsq'', byte_order = 0,
               sensor_type = ''prosail'', spectra_names = veg_output_spec n,
               wavelength_units = ''micrometers'', wavelength = column a 0 \<rparr>)"
    and "0 < n"
    and "\<forall>j<n. \<exists>args s. bundle_args p j (n - 1) = Inr args \<and> run args = Inr s \<and>
           broadcast nb (map snd s) = Inr (column a (Suc j))"
    and "\<exists>args s. bundle_args p (n - 1) (n - 1) = Inr args \<and> run args = Inr s \<and>
           broadcast nb (map fst s) = Inr (column a 0)"
proof -
  from assms obtain arr s w1 a
    where loop: "veg_loop run p (n - 1) nb (Suc n) [0..<n] (zeros nb (Suc n), None) w
                   = (Inr (arr, Some s), w1)"
      and col: "set_column nb (Suc n) arr 0 (map fst s) = Inr a"
      and w': "w' = write_file (output_base @ ''_speclib.hdr'')
           (HdrFile \<lparr> samples = nb, lines = n, bands = 1, data_type = 5,
              header_offset = 0, interleave = ''bsq'', byte_order = 0,
              sensor_type = ''prosail'', spectra_names = veg_output_spec n,
              wavelength_units = ''micrometers'', wavelength = column a 0 \<rparr>)
           (write_file (output_base @ ''_speclib.sli'')
              (SliFile (tofile (transpose_nd n (drop_first_column a))))
              (write_file (output_base @ ''_speclib.csv'')
                 (CsvFile (savetxt fmt_3f (transpose_nd (Suc n) a))) w1))"
    unfolding veg_driver_def Let_def
    by (auto split: prod.splits sum.splits option.splits)
  have n: "0 < n"
  proof (rule ccontr)
    assume "\<not> 0 < n"
    with loop show False by simp
  qed
  have shape0: "has_shape nb (Suc n) (fst (zeros nb (Suc n), None :: spectrum option))"
    by (simp add: has_shape_zeros)
  from veg_loop_shape[OF loop shape0] have shape_arr: "has_shape nb (Suc n) arr"
    by simp
  from col shape_arr have shape_a: "has_shape nb (Suc n) a"
    by (rule set_column_shape)
  have "files w1 = files w"
    using loop by (rule veg_loop_files)
  with w' have files: "files w' = (files w)
          (output_base @ ''_speclib.csv'' \<mapsto> CsvFile (savetxt fmt_3f (transpose_nd (Suc n) a)),
           output_base @ ''_speclib.sli'' \<mapsto>
             SliFile (tofile (transpose_nd n (drop_first_column a))),
           output_base @ ''_speclib.hdr'' \<mapsto>
             HdrFile \<lparr> samples = nb, lines = n, bands = 1, data_type = 5,
               header_offset = 0, interleave = ''bsq'', byte_order = 0,
               sensor_type = ''prosail'', spectra_names = veg_output_spec n,
               wavelength_units = ''micrometers'', wavelength = column a 0 \<rparr>)"
    by simp
  have cols: "\<exists>args s. bundle_args p j (n - 1) = Inr args \<and> run args = Inr s \<and>
           broadcast nb (map snd s) = Inr (column a (Suc j))" if "j < n" for j
  proof -
    from that have "j \<in> set [0..<n]" by simp
    from veg_loop_columns[OF loop shape0 _ this]
    obtain args t where "bundle_args p j (n - 1) = Inr args" and "run args = Inr t"
      and "broadcast nb (map snd t) = Inr (column arr (Suc j))"
      by auto
    moreover from col shape_arr have "column a (Suc j) = column arr (Suc j)"
      by (rule set_column_other) simp
    ultimately show ?thesis by auto
  qed
  have last: "\<exists>args s. bundle_args p (n - 1) (n - 1) = Inr args \<and> run args = Inr s \<and>
           broadcast nb (map fst s) = Inr (column a 0)"
  proof -
    from n have ne: "[0..<n] \<noteq> []" and l: "last [0..<n] = n - 1"
      by simp_all
    from veg_loop_last[OF loop ne] l
    obtain args where "bundle_args p (n - 1) (n - 1) = Inr args" and "run args = Inr s"
      by auto
    moreover from col shape_arr have "broadcast nb (map fst s) = Inr (column a 0)"
      by (rule set_column_same)
    ultimately show ?thesis by auto
  qed
  from cols have "\<forall>j<n. \<exists>args s. bundle_args p j (n - 1) = Inr args \<and> run args = Inr s \<and>
           broadcast nb (map snd s) = Inr (column a (Suc j))"
    by blast
  with shape_a files n show thesis
    using last by (rule that)
qed

lemma veg_scriptD:
  assumes "veg_script output_base n nb run rs w = Some (r, w')"
  obtains p k where "sample_params rs n = Some (p, k)"
    and "veg_driver output_base n nb run p w = (r, w')"
  using assms by (auto simp: veg_script_def split: option.splits)

lemma demo_driver:
  "veg_driver ''lib'' 3 5 five_band_model demo_params empty_world = (Inr (), demo_world)"
  by (simp add: veg_driver_def upt_3 upt_4 demo_params_def bundle_args_def five_band_model_def
      set_column_def broadcast_def zeros_def numeral_eq_Suc log_call_def empty_world_def
      write_file_def transpose_nd_def column_def drop_first_column_def tofile_def
      savetxt_def fmt_3f_def round_half_even_def
      veg_output_spec_def str.simps demo_world_def demo_call_def demo_header_def)

lemma demo_run:
  "veg_script ''lib'' 3 5 five_band_model demo_stream empty_world = Some (Inr (), demo_world)"
  by (simp add: veg_script_def demo_sample demo_driver)

lemma first_bundle_sample: "sample_params demo_stream 1 = Some (first_bundle, 13)"
  by (simp add: sample_params_def sample_bundle_def empty_params_def uniform_def
      gauss_def gauss_truncated_def demo_stream_def rejection_loop.simps first_bundle_def)

lemma rounding_driver:
  "veg_driver ''fine'' 1 2 sixteenth_model first_bundle empty_world = (Inr (), rounding_world)"
  by (simp add: veg_driver_def upt_2 first_bundle_def
      bundle_args_def sixteenth_model_def set_column_def broadcast_def zeros_def numeral_eq_Suc
      log_call_def empty_world_def write_file_def transpose_nd_def column_def
      drop_first_column_def tofile_def savetxt_def fmt_3f_def round_half_even_def Let_def
      veg_output_spec_def str.simps rounding_world_def)

lemma rounding_run:
  "veg_script ''fine'' 1 2 sixteenth_model demo_stream empty_world = Some (Inr (), rounding_world)"
  unfolding veg_script_def first_bundle_sample by (simp add: rounding_driver del: One_nat_def)

lemma failed_driver:
  "veg_driver ''lib'' 3 5 failing_model demo_params empty_world
     = (Inl (ExternalError ''prosail''), failed_world)"
  by (simp add: veg_driver_def upt_3 upt_4 demo_params_def bundle_args_def five_band_model_def
      set_column_def broadcast_def zeros_def numeral_eq_Suc log_call_def empty_world_def
      failing_model_def failed_world_def demo_call_def)

lemma failed_run:
  "veg_script ''lib'' 3 5 failing_model demo_stream empty_world
     = Some (Inl (ExternalError ''prosail''), failed_world)"
  by (simp add: veg_script_def demo_sample failed_driver)

section \<open>Properties of the soil script\<close>

lemma fancy_index_length: "fancy_index xs ks = Inr ys \<Longrightarrow> length ys = length ks"
  by (auto simp: fancy_index_def split: if_splits)

lemma soil_bundle_files:
  "soil_bundle ext ts wl rn gb nb m n sp gr i j v w = (r, w') \<Longrightarrow> files w' = files w"
  unfolding soil_bundle_def Let_def
  by (auto split: sum.splits prod.splits if_splits)

lemma soil_bundle_log:
  "soil_bundle ext ts wl rn gb nb m n sp gr i j v w = (r, w') \<Longrightarrow>
     log_step w w' (\<not> isl r) 1"
  unfolding soil_bundle_def Let_def
  by (auto split: sum.splits prod.splits)

lemma soil_bundle_completed:
  assumes "soil_bundle ext ts wl rn gb nb m n sp gr i j v w = (Inr v', w')"
  shows "wavelengths v' \<noteq> None"
    and "has_shape nb m (output_array v) \<Longrightarrow> has_shape nb m (output_array v')"
  using assms unfolding soil_bundle_def Let_def
  by (auto simp: bind_e_def split: sum.splits prod.splits if_splits dest: set_column_shape)

lemma soil_bundles_files:
  "soil_bundles (soil_bundle ext ts wl rn gb nb m n sp gr i) js v w = (r, w') \<Longrightarrow>
     files w' = files w"
proof (induction js arbitrary: v w)
  case Nil
  then show ?case by simp
next
  case (Cons j js)
  then show ?case
    by (auto split: prod.splits sum.splits dest: soil_bundle_files)
qed

lemma soil_bundles_log:
  "soil_bundles (soil_bundle ext ts wl rn gb nb m n sp gr i) js v w = (r, w') \<Longrightarrow>
     log_step w w' (\<not> isl r) (length js)"
proof (induction js arbitrary: v w)
  case Nil
  then show ?case by (auto simp: log_step_refl)
next
  case (Cons j js)
  obtain r1 w1 where step: "soil_bundle ext ts wl rn gb nb m n sp gr i j v w = (r1, w1)"
    by (cases "soil_bundle ext ts wl rn gb nb m n sp gr i j v w")
  from soil_bundle_log[OF step] have one: "log_step w w1 (\<not> isl r1) 1" .
  show ?case
  proof (cases r1)
    case (Inl e)
    with Cons.prems step one show ?thesis by (auto intro: log_step_failed)
  next
    case (Inr v1)
    with Cons.prems step
    have "soil_bundles (soil_bundle ext ts wl rn gb nb m n sp gr i) js v1 w1 = (r, w')"
      by simp
    from Cons.IH[OF this] one Inr show ?thesis
      by (auto dest: log_step_trans)
  qed
qed

lemma soil_bundles_completed:
  "soil_bundles (soil_bundle ext ts wl rn gb nb m n sp gr i) js v w = (Inr v', w') \<Longrightarrow>
     (has_shape nb m (output_array v) \<longrightarrow> has_shape nb m (output_array v')) \<and>
     (js \<noteq> [] \<or> wavelengths v \<noteq> None \<longrightarrow> wavelengths v' \<noteq> None)"
proof (induction js arbitrary: v w)
  case Nil
  then show ?case by simp
next
  case (Cons j js)
  then obtain v1 w1 where
    step: "soil_bundle ext ts wl rn gb nb m n sp gr i j v w = (Inr v1, w1)"
    and rest: "soil_bundles (soil_bundle ext ts wl rn gb nb m n sp gr i) js v1 w1 = (Inr v', w')"
    by (auto split: prod.splits sum.splits)
  from Cons.IH[OF rest] soil_bundle_completed[OF step]
  show ?case by simp
qed

lemma output_sixs_not_artifact:
  "output_sixs output_base i \<noteq> output_base @ ''_speclib.csv''"
  "output_sixs output_base i \<noteq> output_base @ ''_speclib.sli''"
  "output_sixs output_base i \<noteq> output_base @ ''_speclib.hdr''"
  by (simp_all add: output_sixs_def)

lemma soil_atmosphere_files:
  assumes "soil_atmosphere ext d ob ts wl rn gb nb m n sp i v w = (r, w')"
    and "path \<noteq> output_sixs ob i"
  shows "files w' path = files w path"
  using assms unfolding soil_atmosphere_def
  by (auto split: sum.splits prod.splits dest: soil_bundles_files)

lemma soil_atmosphere_log:
  assumes "soil_atmosphere ext d ob ts wl rn gb nb m n sp i v w = (r, w')"
  shows "log_step w w' (\<not> isl r) n"
proof (cases "set_atmosphere d i (sx v)")
  case (Inl e)
  with assms show ?thesis
    by (auto simp: soil_atmosphere_def)
next
  case (Inr sg)
  obtain s gr where sg: "sg = (s, gr)" by (cases sg)
  obtain r1 w1 where loop:
    "soil_bundles (soil_bundle ext ts wl rn gb nb m n sp gr i) [0..<n] (v\<lparr>sx := s\<rparr>) w = (r1, w1)"
    by (cases "soil_bundles (soil_bundle ext ts wl rn gb nb m n sp gr i) [0..<n] (v\<lparr>sx := s\<rparr>) w")
  from soil_bundles_log[OF loop] have "log_step w w1 (\<not> isl r1) n" by simp
  with assms Inr sg loop show ?thesis
    unfolding soil_atmosphere_def by (cases r1) auto
qed

lemma soil_atmosphere_completed:
  assumes "soil_atmosphere ext d ob ts wl rn gb nb m n sp i v w = (Inr v', w')"
  shows "has_shape nb m (output_array v) \<longrightarrow> has_shape nb m (output_array v')"
    and "0 < n \<or> wavelengths v \<noteq> None \<longrightarrow> wavelengths v' \<noteq> None"
proof -
  from assms obtain s gr w1
    where loop: "soil_bundles (soil_bundle ext ts wl rn gb nb m n sp gr i) [0..<n]
                   (v\<lparr>sx := s\<rparr>) w = (Inr v', w1)"
    unfolding soil_atmosphere_def by (auto split: sum.splits prod.splits)
  from soil_bundles_completed[OF loop]
  show "has_shape nb m (output_array v) \<longrightarrow> has_shape nb m (output_array v')"
    and "0 < n \<or> wavelengths v \<noteq> None \<longrightarrow> wavelengths v' \<noteq> None"
    by simp_all
qed

lemma soil_atmospheres_files:
  assumes "soil_atmospheres (soil_atmosphere ext d ob ts wl rn gb nb m n sp) is v w = (r, w')"
    and "\<And>i. path \<noteq> output_sixs ob i"
  shows "files w' path = files w path"
  using assms(1)
proof (induction "is" arbitrary: v w)
  case Nil
  then show ?case by simp
next
  case (Cons i "is")
  obtain r1 w1 where step: "soil_atmosphere ext d ob ts wl rn gb nb m n sp i v w = (r1, w1)"
    by (cases "soil_atmosphere ext d ob ts wl rn gb nb m n sp i v w")
  from soil_atmosphere_files[OF step assms(2)] have w1: "files w1 path = files w path" .
  show ?case
  proof (cases r1)
    case (Inl e)
    with Cons.prems step w1 show ?thesis by simp
  next
    case (Inr v1)
    with Cons.prems step
    have "soil_atmospheres (soil_atmosphere ext d ob ts wl rn gb nb m n sp) is v1 w1 = (r, w')"
      by simp
    from Cons.IH[OF this] w1 show ?thesis by simp
  qed
qed

lemma soil_atmospheres_log:
  "soil_atmospheres (soil_atmosphere ext d ob ts wl rn gb nb m n sp) is v w = (r, w') \<Longrightarrow>
     log_step w w' (\<not> isl r) (length is * n)"
proof (induction "is" arbitrary: v w)
  case Nil
  then show ?case by (auto simp: log_step_refl)
next
  case (Cons i "is")
  obtain r1 w1 where step: "soil_atmosphere ext d ob ts wl rn gb nb m n sp i v w = (r1, w1)"
    by (cases "soil_atmosphere ext d ob ts wl rn gb nb m n sp i v w")
  from soil_atmosphere_log[OF step] have one: "log_step w w1 (\<not> isl r1) n" .
  show ?case
  proof (cases r1)
    case (Inl e)
    with Cons.prems step one show ?thesis by (auto intro: log_step_failed)
  next
    case (Inr v1)
    with Cons.prems step
    have "soil_atmospheres (soil_atmosphere ext d ob ts wl rn gb nb m n sp) is v1 w1 = (r, w')"
      by simp
    from Cons.IH[OF this] one Inr show ?thesis
      by (auto dest: log_step_trans)
  qed
qed

lemma soil_atmospheres_shape:
  "soil_atmospheres (soil_atmosphere ext d ob ts wl rn gb nb m n sp) is v w = (Inr v', w') \<Longrightarrow>
     has_shape nb m (output_array v) \<Longrightarrow> has_shape nb m (output_array v')"
proof (induction "is" arbitrary: v w)
  case Nil
  then show ?case by simp
next
  case (Cons i "is")
  from Cons.prems(1) obtain v1 w1
    where step: "soil_atmosphere ext d ob ts wl rn gb nb m n sp i v w = (Inr v1, w1)"
      and rest: "soil_atmospheres (soil_atmosphere ext d ob ts wl rn gb nb m n sp) is v1 w1
                   = (Inr v', w')"
    by (auto split: prod.splits sum.splits)
  from soil_atmosphere_completed(1)[OF step] Cons.prems(2)
  have "has_shape nb m (output_array v1)" by simp
  with Cons.IH[OF rest] show ?case by simp
qed

lemma soil_simulation_files:
  assumes "soil_simulation ob na n ts wl ext d w = (r, w')"
    and "\<And>i. path \<noteq> output_sixs ob i"
  shows "files w' path = files w path"
  using assms(1) unfolding soil_simulation_def Let_def
  by (auto split: sum.splits prod.splits option.splits
      dest: soil_atmospheres_files[where path = path, OF _ assms(2)])

lemma soil_simulation_log:
  assumes "soil_simulation ob na n ts wl ext d w = (r, w')"
  shows "log_step w w' (\<not> isl r) (na * n)"
proof (cases "bind_e (random_sample (srnd d) (length soil_files) n) pick_files")
  case (Inl e)
  with assms show ?thesis
    by (auto simp: soil_simulation_def)
next
  case sp: (Inr sp)
  show ?thesis
  proof (cases "sensor_config ts wl")
    case (Inl e)
    with assms sp show ?thesis
      by (auto simp: soil_simulation_def)
  next
    case (Inr cfg)
    obtain rn num_bands gb where cfg: "cfg = (rn, num_bands, gb)" by (cases cfg)
    obtain r1 w1 where loop: "soil_atmospheres
        (soil_atmosphere ext d ob ts wl rn gb (length gb) (n * na + 1) n sp) [0..<na]
        \<lparr> sx = sixs_initial ext, output_array = zeros (length gb) (n * na + 1),
           wavelengths = None \<rparr> w = (r1, w1)"
      by (cases "soil_atmospheres
        (soil_atmosphere ext d ob ts wl rn gb (length gb) (n * na + 1) n sp) [0..<na]
        \<lparr> sx = sixs_initial ext, output_array = zeros (length gb) (n * na + 1),
           wavelengths = None \<rparr> w")
    from soil_atmospheres_log[OF loop] have log: "log_step w w1 (\<not> isl r1) (na * n)"
      by simp
    show ?thesis
    proof (cases r1)
      case (Inl e)
      with assms sp Inr cfg loop log show ?thesis
        by (auto simp: soil_simulation_def)
    next
      case v: (Inr v)
      with log have "log_step w w1 True (na * n)" by simp
      with assms sp Inr cfg loop v show ?thesis
        unfolding soil_simulation_def Let_def
        by (auto split: option.splits sum.splits intro: log_step_failed)
    qed
  qed
qed

lemma soil_simulation_loops:
  assumes "soil_simulation ob na n ts wl ext d w = (Inr (gb, a, axis), w')"
  obtains sp rn num_bands v wls where "sensor_config ts wl = Inr (rn, num_bands, gb)"
    and "soil_atmospheres
           (soil_atmosphere ext d ob ts wl rn gb (length gb) (Suc (n * na)) n sp)
           [0..<na]
           \<lparr> sx = sixs_initial ext, output_array = zeros (length gb) (Suc (n * na)),
              wavelengths = None \<rparr> w = (Inr v, w')"
    and "wavelengths v = Some wls"
    and "fancy_index wls gb = Inr axis"
    and "set_column (length gb) (Suc (n * na)) (output_array v) 0 axis = Inr a"
  using assms unfolding soil_simulation_def Let_def
  by (auto split: sum.splits prod.splits option.splits)

lemma soil_simulation_completed:
  assumes "soil_simulation ob na n ts wl ext d w = (Inr (gb, a, axis), w')"
  obtains rn num_bands where "sensor_config ts wl = Inr (rn, num_bands, gb)"
    and "has_shape (length gb) (Suc (n * na)) a"
    and "column a 0 = axis"
proof -
  from assms obtain sp rn num_bands v wls
    where cfg: "sensor_config ts wl = Inr (rn, num_bands, gb)"
      and loop: "soil_atmospheres
                   (soil_atmosphere ext d ob ts wl rn gb (length gb) (Suc (n * na)) n sp)
                   [0..<na]
                   \<lparr> sx = sixs_initial ext, output_array = zeros (length gb) (Suc (n * na)),
                      wavelengths = None \<rparr> w = (Inr v, w')"
      and wls: "wavelengths v = Some wls"
      and axis: "fancy_index wls gb = Inr axis"
      and col: "set_column (length gb) (Suc (n * na)) (output_array v) 0 axis = Inr a"
    by (rule soil_simulation_loops)
  from soil_atmospheres_shape[OF loop]
  have shape_v: "has_shape (length gb) (Suc (n * na)) (output_array v)"
    by (simp add: has_shape_zeros)
  from col shape_v have shape_a: "has_shape (length gb) (Suc (n * na)) a"
    by (rule set_column_shape)
  from col shape_v have "broadcast (length gb) axis = Inr (column a 0)"
    by (rule set_column_same)
  with fancy_index_length[OF axis] have col0: "column a 0 = axis"
    by (simp add: broadcast_def)
  show thesis
    by (rule that[OF cfg shape_a col0])
qed

lemma soil_script_stopped:
  assumes "soil_simulation ob na n ts wl ext d w = (Inl e, w1)"
  shows "soil_script ob na n ts wl ext d w = (Inl e, w1)"
  by (simp add: soil_script_def assms)

lemma soil_script_exported:
  assumes "soil_simulation ob na n ts wl ext d w = (Inr (gb, a, axis), w1)"
  shows "soil_script ob na n ts wl ext d w
    = (Inl (NameError ''envi''),
       write_file (ob @ ''_speclib.sli'')
         (SliFile (tofile (transpose_nd (n * na) (drop_first_column a))))
         (write_file (ob @ ''_speclib.csv'') (CsvFile (transpose_nd (Suc (n * na)) a)) w1))"
  by (simp add: soil_script_def soil_export_def assms)

lemma soil_script_raises: "isl (fst (soil_script ob na n ts wl ext d w))"
proof (cases "soil_simulation ob na n ts wl ext d w")
  case (Pair r w1)
  show ?thesis
  proof (cases r)
    case (Inl e)
    with Pair show ?thesis by (simp add: soil_script_stopped)
  next
    case (Inr x)
    obtain gb a axis where "x = (gb, a, axis)" by (cases x)
    with Pair Inr show ?thesis by (simp add: soil_script_exported)
  qed
qed

lemma soil_script_files:
  assumes "\<And>i. path \<noteq> output_sixs ob i"
    and "path \<noteq> ob @ ''_speclib.csv''" and "path \<noteq> ob @ ''_speclib.sli''"
  shows "files (snd (soil_script ob na n ts wl ext d w)) path = files w path"
proof (cases "soil_simulation ob na n ts wl ext d w")
  case (Pair r w1)
  from soil_simulation_files[OF Pair assms(1)] have w1: "files w1 path = files w path" .
  show ?thesis
  proof (cases r)
    case (Inl e)
    with Pair w1 show ?thesis by (simp add: soil_script_stopped)
  next
    case (Inr x)
    obtain gb a axis where "x = (gb, a, axis)" by (cases x)
    with Pair Inr w1 assms(2,3) show ?thesis by (simp add: soil_script_exported)
  qed
qed

lemma soil_script_log:
  assumes "soil_script ob na n ts wl ext d w = (r, w')"
  shows "invocations w' = invocations w @ new_invocations w w'"
    and "length (new_invocations w w') \<noteq> na * n \<or> \<not> list_all returned (new_invocations w w') \<Longrightarrow>
      files w' (ob @ ''_speclib.csv'') = files w (ob @ ''_speclib.csv'') \<and>
      files w' (ob @ ''_speclib.sli'') = files w (ob @ ''_speclib.sli'')"
proof -
  obtain r1 w1 where sim: "soil_simulation ob na n ts wl ext d w = (r1, w1)"
    by (cases "soil_simulation ob na n ts wl ext d w")
  note log = soil_simulation_log[OF sim]
  have inv: "invocations w' = invocations w1"
  proof (cases r1)
    case (Inl e)
    with sim assms show ?thesis by (simp add: soil_script_stopped)
  next
    case (Inr x)
    obtain gb a axis where "x = (gb, a, axis)" by (cases x)
    with sim Inr assms show ?thesis by (auto simp: soil_script_exported)
  qed
  from log_stepD(1)[OF log] inv
  show "invocations w' = invocations w @ new_invocations w w'"
    by (simp add: new_invocations_def)
  show "files w' (ob @ ''_speclib.csv'') = files w (ob @ ''_speclib.csv'') \<and>
      files w' (ob @ ''_speclib.sli'') = files w (ob @ ''_speclib.sli'')"
    if bad: "length (new_invocations w w') \<noteq> na * n \<or> \<not> list_all returned (new_invocations w w')"
  proof (cases r1)
    case (Inl e)
    with sim assms have "w' = w1" by (simp add: soil_script_stopped)
    with soil_simulation_files[OF sim] show ?thesis
      by (simp add: output_sixs_def)
  next
    case (Inr x)
    with log have "log_step w w1 True (na * n)" by simp
    from log_stepD(2)[OF this] inv
    have "length (new_invocations w w') = na * n \<and> list_all returned (new_invocations w w')"
      by (simp add: new_invocations_def)
    with bad show ?thesis by blast
  qed
qed

lemma list_update_Cons_numeral: "(x # xs)[numeral k := y] = x # xs[pred_numeral k := y]"
  by (simp add: numeral_eq_Suc)

lemma replicate_numeral_Cons: "replicate (numeral k) x = x # replicate (pred_numeral k) x"
  by (simp add: numeral_eq_Suc)

lemma Suc_5: "Suc (Suc (Suc (Suc (Suc 0)))) = 5"
  by simp

lemma demo_pick:
  "bind_e (random_sample (srnd demo_draws) (length soil_files) 3) pick_files
     = Inr [soil_files ! 2, soil_files ! 0, soil_files ! 5]"
  by (simp add: random_sample_def bind_e_def demo_draws_def idx_def soil_files_def)

lemma demo_sensor: "sensor_config ''custom'' demo_wl = Inr (run_wavelengths, 5, [0, 1, 2, 3, 4])"
  by (simp add: sensor_config_def demo_wl_def upt_5)

lemma demo_atmosphere_0:
  "set_atmosphere demo_draws 0 s = Inr (s\<lparr> aero_profile_of := Continental,
     atmos_profile_of := Tropical, aot550 := 1,
     geometry_of := \<lparr> geo_solar_a = 10, geo_solar_z = 30, geo_view_a = 358.5, geo_view_z = 0 \<rparr> \<rparr>,
     HomogeneousLambertian)"
  by (simp add: set_atmosphere_def bind_e_def idx_def demo_draws_def view_a_def aero_profile_def
      atmos_profile_def ground_reflectance_def)

lemma demo_atmosphere_1:
  "set_atmosphere demo_draws (Suc 0) s = Inr (s\<lparr> aero_profile_of := BiomassBurning,
     atmos_profile_of := Tropical, aot550 := 2,
     geometry_of := \<lparr> geo_solar_a = 20, geo_solar_z = 40, geo_view_a = 1.5, geo_view_z = 1 \<rparr> \<rparr>,
     HomogeneousLambertian)"
  by (simp add: set_atmosphere_def bind_e_def idx_def demo_draws_def view_a_def aero_profile_def
      atmos_profile_def ground_reflectance_def)

lemmas soil_eval = Suc_5 Let_def zeros_def replicate_numeral_Cons bind_e_def idx_def
  soil_atmosphere_def demo_atmosphere_0 demo_atmosphere_1 soil_bundle_def soil_spectrum_def
  fancy_index_def set_column_def broadcast_def log_call_def write_file_def
  transpose_nd_def column_def drop_first_column_def tofile_def output_sixs_def
  soil_output_spec_def fmt_d_def str.simps demo_wl_def demo_soil_def demo_sixs_def
  demo_run_sixs_def empty_world_def upt_2 upt_3 upt_5 upt_6 upt_7 list_update_Cons_numeral
  demo_sixs_1_def demo_sixs_2_def demo_sixs_call_def

lemma soil_demo_reaches_export:
  "\<not> isl (fst (soil_simulation ''soil'' 2 3 ''custom'' demo_wl demo_externals demo_draws
     empty_world))"
  unfolding soil_simulation_def demo_pick demo_sensor
  by (simp add: soil_eval demo_externals_def)

lemma soil_demo_run:
  "soil_script ''soil'' 2 3 ''custom'' demo_wl demo_externals demo_draws empty_world
     = (Inl (NameError ''envi''), soil_demo_world)"
  unfolding soil_script_def soil_simulation_def demo_pick demo_sensor
  by (simp add: soil_eval soil_export_def demo_externals_def soil_demo_world_def)

lemma soil_failed_run:
  "soil_script ''soil'' 2 3 ''custom'' demo_wl failing_externals demo_draws empty_world
     = (Inl (ExternalError ''sixs''), soil_failed_world)"
  unfolding soil_script_def soil_simulation_def demo_pick demo_sensor
  by (simp add: soil_eval failing_externals_def failing_run_sixs_def soil_failed_world_def)

lemma unknown_unit_run:
  "soil_script ''soil'' 2 3 ''custom'' demo_wl unknown_unit_externals demo_draws empty_world
     = (Inl (NameError ''envi''), unknown_unit_world)"
  unfolding soil_script_def soil_simulation_def demo_pick demo_sensor
  by (simp add: soil_eval soil_export_def unknown_unit_externals_def unknown_unit_soil_def
      unknown_unit_world_def raw_ground_def)

text \<open>
  The dictionary of lines 286-298 has one name per bundle for
  \<^verbatim>\<open>n_bundles * n_atmospheres\<close> lines. No run writes it.
\<close>

lemma soil_metadata_names:
  "length (spectra_names (soil_metadata nb n na ts (soil_output_spec n) axis)) = n"
  "lines (soil_metadata nb n na ts (soil_output_spec n) axis) = n * na"
  by (simp_all add: soil_metadata_def soil_output_spec_def)

lemma soil_demo_metadata:
  "soil_metadata 5 3 2 ''custom'' (soil_output_spec 3) [0.4, 0.5, 0.6, 0.7, 0.8]
     = soil_demo_header"
  by (simp add: soil_metadata_def soil_demo_header_def soil_output_spec_def upt_3 fmt_d_def
      str.simps replicate_numeral_Cons)

lemma pick_files_ok:
  "list_all (\<lambda>i. i < length soil_files) is \<Longrightarrow> \<exists>fs. pick_files is = Inr fs"
  by (induction "is") (auto simp: idx_def)

lemma sensor_config_unsupported:
  "target_sensor \<notin> set supported_sensors \<Longrightarrow>
     sensor_config target_sensor wl = Inl (OSError ''Unsupported sensor configuration'')"
  by (simp add: supported_sensors_def sensor_config_def)

lemma hyperion_unsupported: "''hyperion'' \<notin> set supported_sensors"
  by (simp add: supported_sensors_def)

lemma soil_bundle_call:
  assumes "idx sp j = Inr path" and "readJFSC ext path = Inr s0"
    and "remove_water_bands ext s0 = Inr s" and "spectra s = reflectance # rest"
  shows "\<exists>outcome. invocations (snd (soil_bundle ext ts wl rn gb nb m n sp gr i j v w))
     = invocations w @
       [(SixsCall rn
          ((sx v)\<lparr>ground_reflectance_of := Ground gr
             (if band_unit s = ''Nanometers'' then map (\<lambda>x. x / 1000) (band_centers s)
              else band_centers s, reflectance)\<rparr>)
          (if ts = ''custom'' then Some wl else None) ''apparent_reflectance'', outcome)]"
proof -
  let ?axis = "if band_unit s = ''Nanometers'' then map (\<lambda>x. x / 1000) (band_centers s)
     else band_centers s"
  let ?s = "(sx v)\<lparr>ground_reflectance_of := Ground gr (?axis, reflectance)\<rparr>"
  let ?wl = "if ts = ''custom'' then Some wl else None"
  let ?call = "SixsCall rn ?s ?wl ''apparent_reflectance''"
  let ?out = "run_sixs_params ext rn ?s ?wl ''apparent_reflectance''"
  have pre: "bind_e (idx sp j) (\<lambda>path. bind_e (readJFSC ext path)
      (\<lambda>soil. bind_e (remove_water_bands ext soil) soil_spectrum)) = Inr (?axis, reflectance)"
    using assms by (simp add: bind_e_def soil_spectrum_def idx_def)
  have "snd (soil_bundle ext ts wl rn gb nb m n sp gr i j v w) = log_call ?call ?out w"
  proof (cases ?out)
    case (Inl e)
    then show ?thesis
      unfolding soil_bundle_def pre Let_def by simp
  next
    case (Inr res)
    then show ?thesis
      unfolding soil_bundle_def pre Let_def
      by (cases res; cases "bind_e (fancy_index (snd res) gb)
            (set_column nb m (output_array v) (i * n + j + 1))") simp_all
  qed
  then show ?thesis
    by (simp add: log_call_def)
qed

lemma veg_loop_calls:
  "veg_loop run p i nb m js st w = (Inr st', w') \<Longrightarrow>
     invocations w' = invocations w
       @ map (\<lambda>j. (ProsailCall (projr (bundle_args p j i)), None)) js"
proof (induction js arbitrary: st w)
  case Nil
  then show ?case by simp
next
  case (Cons j js)
  from Cons.prems obtain args s a
    where args: "bundle_args p j i = Inr args" and run: "run args = Inr s"
    and rest: "veg_loop run p i nb m js (a, Some s) (log_call (ProsailCall args) (run args) w)
                 = (Inr st', w')"
    by (rule veg_loop_step)
  from Cons.IH[OF rest] args run show ?case by simp
qed

lemma veg_driver_calls:
  assumes "veg_driver output_base n nb run p w = (Inr (), w')"
  shows "new_invocations w w'
    = map (\<lambda>j. (ProsailCall (projr (bundle_args p j (n - 1))), None)) [0..<n]"
proof -
  from assms obtain arr s w1 a
    where loop: "veg_loop run p (n - 1) nb (Suc n) [0..<n] (zeros nb (Suc n), None) w
                   = (Inr (arr, Some s), w1)"
      and "invocations w' = invocations w1"
    unfolding veg_driver_def Let_def
    by (auto split: prod.splits sum.splits option.splits)
  with veg_loop_calls[OF loop] show ?thesis
    by (simp add: new_invocations_def)
qed

lemma veg_completed_rows:
  assumes "veg_script output_base n nb run rs w = Some (Inr (), w')"
  obtains exact vals md where
    "files w' (output_base @ ''_speclib.csv'') = Some (CsvFile (savetxt fmt_3f exact))"
    "files w' (output_base @ ''_speclib.sli'') = Some (SliFile vals)"
    "files w' (output_base @ ''_speclib.hdr'') = Some (HdrFile md)"
    "md = \<lparr> samples = nb, lines = n, bands = 1, data_type = 5,
               header_offset = 0, interleave = ''bsq'', byte_order = 0,
               sensor_type = ''prosail'', spectra_names = veg_output_spec n,
               wavelength_units = ''micrometers'', wavelength = exact ! 0 \<rparr>"
    "length exact = n + 1" "list_all (\<lambda>row. length row = nb) exact"
    "vals = concat (tl exact)" "length vals = n * nb"
    "\<forall>s<n. \<forall>b<nb. vals ! (s * nb + b) = exact ! (s + 1) ! b"
    "\<forall>j<n. \<exists>args s. new_invocations w w' ! j = (ProsailCall args, None) \<and>
       run args = Inr s \<and> broadcast nb (map snd s) = Inr (exact ! (j + 1))"
    "0 < n"
    "\<exists>args s. new_invocations w w' ! (n - 1) = (ProsailCall args, None) \<and>
       run args = Inr s \<and> broadcast nb (map fst s) = Inr (exact ! 0)"
proof -
  from assms obtain p k where drv: "veg_driver output_base n nb run p w = (Inr (), w')"
    by (rule veg_scriptD)
  from drv obtain a where shape: "has_shape nb (Suc n) a"
    and files: "files w' = (files w)
          (output_base @ ''_speclib.csv'' \<mapsto> CsvFile (savetxt fmt_3f (transpose_nd (Suc n) a)),
           output_base @ ''_speclib.sli'' \<mapsto>
             SliFile (tofile (transpose_nd n (drop_first_column a))),
           output_base @ ''_speclib.hdr'' \<mapsto>
             HdrFile \<lparr> samples = nb, lines = n, bands = 1, data_type = 5,
               header_offset = 0, interleave = ''bsq'', byte_order = 0,
               sensor_type = ''prosail'', spectra_names = veg_output_spec n,
               wavelength_units = ''micrometers'', wavelength = column a 0 \<rparr>)"
    and n: "0 < n"
    and cols: "\<forall>j<n. \<exists>args s. bundle_args p j (n - 1) = Inr args \<and>
           run args = Inr s \<and> broadcast nb (map snd s) = Inr (column a (Suc j))"
    and last: "\<exists>args s. bundle_args p (n - 1) (n - 1) = Inr args \<and> run args = Inr s \<and>
           broadcast nb (map fst s) = Inr (column a 0)"
    by (rule veg_driver_completed)
  let ?rows = "transpose_nd (Suc n) a"
  let ?vals = "tofile (transpose_nd n (drop_first_column a))"
  note layout = artifact_layout[OF shape]
  have calls: "\<exists>args s. new_invocations w w' ! j = (ProsailCall args, None) \<and>
       run args = Inr s \<and> broadcast nb (map snd s) = Inr (?rows ! (j + 1))" if "j < n" for j
  proof -
    from cols that obtain args s where "bundle_args p j (n - 1) = Inr args"
      and "run args = Inr s" and "broadcast nb (map snd s) = Inr (column a (Suc j))"
      by auto
    with that show ?thesis
      by (simp add: veg_driver_calls[OF drv] transpose_nd_nth)
  qed
  have axis: "\<exists>args s. new_invocations w w' ! (n - 1) = (ProsailCall args, None) \<and>
       run args = Inr s \<and> broadcast nb (map fst s) = Inr (?rows ! 0)"
  proof -
    from last obtain args s where "bundle_args p (n - 1) (n - 1) = Inr args"
      and "run args = Inr s" and "broadcast nb (map fst s) = Inr (column a 0)"
      by auto
    with n show ?thesis
      by (simp add: veg_driver_calls[OF drv] transpose_nd_nth)
  qed
  show thesis
  proof (rule that[of ?rows ?vals])
    show "files w' (output_base @ ''_speclib.csv'') = Some (CsvFile (savetxt fmt_3f ?rows))"
      by (simp add: files)
    show "files w' (output_base @ ''_speclib.sli'') = Some (SliFile ?vals)"
      by (simp add: files)
    show "files w' (output_base @ ''_speclib.hdr'') = Some (HdrFile \<lparr> samples = nb,
        lines = n, bands = 1, data_type = 5, header_offset = 0, interleave = ''bsq'',
        byte_order = 0, sensor_type = ''prosail'', spectra_names = veg_output_spec n,
        wavelength_units = ''micrometers'', wavelength = ?rows ! 0 \<rparr>)"
      by (simp add: files layout(3))
    show "length ?rows = n + 1" using layout(1) by simp
    show "list_all (\<lambda>row. length row = nb) ?rows" by (rule layout(2))
    show "?vals = concat (tl ?rows)" by (rule layout(4))
    show "length ?vals = n * nb" by (rule layout(5))
    show "\<forall>s<n. \<forall>b<nb. ?vals ! (s * nb + b) = ?rows ! (s + 1) ! b"
      using layout(6) by simp
    show "\<forall>j<n. \<exists>args s. new_invocations w w' ! j = (ProsailCall args, None) \<and>
       run args = Inr s \<and> broadcast nb (map snd s) = Inr (?rows ! (j + 1))"
      using calls by blast
    show "0 < n" by (rule n)
    show "\<exists>args s. new_invocations w w' ! (n - 1) = (ProsailCall args, None) \<and>
       run args = Inr s \<and> broadcast nb (map fst s) = Inr (?rows ! 0)"
      by (rule axis)
  qed simp
qed

lemma demo_world_files:
  "files demo_world ''lib_speclib.csv'' = Some (CsvFile
     [[0.4, 0.5, 0.6, 0.7, 0.8], [35, 3, 90, 20, 0], [45, 3, 90, 20, 0], [20, 3, 90, 20, 0]])"
  "files demo_world ''lib_speclib.sli''
     = Some (SliFile [35, 3, 90, 20, 0, 45, 3, 90, 20, 0, 20, 3, 90, 20, 0])"
  "files demo_world ''lib_speclib.hdr'' = Some (HdrFile demo_header)"
  by (simp_all add: demo_world_def)


lemma failed_world_files:
  "files failed_world = files empty_world"
  "files soil_failed_world ''soil_speclib.csv'' = None"
  "files soil_failed_world ''soil_speclib.sli'' = None"
  "files soil_failed_world ''soil_speclib.hdr'' = None"
  by (simp_all add: failed_world_def soil_failed_world_def empty_world_def)

section \<open>The spectra stored by the soil script\<close>

lemma soil_bundle_stepE:
  assumes "soil_bundle ext ts wl rn gb nb m n sp gr i j v w = (Inr v', w')"
  obtains s wl_arg wls results vals a where
    "run_sixs_params ext rn s wl_arg ''apparent_reflectance'' = Inr (wls, results)"
    "fancy_index results gb = Inr vals"
    "set_column nb m (output_array v) (i * n + j + 1) vals = Inr a"
    "output_array v' = a"
    "invocations w' = invocations w @ [(SixsCall rn s wl_arg ''apparent_reflectance'', None)]"
    "wavelengths v' = Some wls"
proof -
  obtain spectrum where pre: "bind_e (idx sp j) (\<lambda>path. bind_e (readJFSC ext path)
      (\<lambda>soil. bind_e (remove_water_bands ext soil) soil_spectrum)) = Inr spectrum"
    using assms unfolding soil_bundle_def by (auto split: sum.splits)
  let ?s = "(sx v)\<lparr>ground_reflectance_of := Ground gr spectrum\<rparr>"
  let ?wl = "if ts = ''custom'' then Some wl else None"
  let ?out = "run_sixs_params ext rn ?s ?wl ''apparent_reflectance''"
  from assms obtain res where out: "?out = Inr res"
    unfolding soil_bundle_def pre Let_def by (cases ?out) auto
  obtain wls results where res: "res = (wls, results)" by (cases res)
  let ?col = "bind_e (fancy_index results gb) (set_column nb m (output_array v) (i * n + j + 1))"
  have body: "soil_bundle ext ts wl rn gb nb m n sp gr i j v w
      = (case ?col of
           Inl e \<Rightarrow> (Inl e, log_call (SixsCall rn ?s ?wl ''apparent_reflectance'') ?out w)
         | Inr a \<Rightarrow> (Inr (v\<lparr>sx := ?s, output_array := a, wavelengths := Some wls\<rparr>),
                     log_call (SixsCall rn ?s ?wl ''apparent_reflectance'') ?out w))"
    unfolding soil_bundle_def pre Let_def by (simp add: out res)
  from assms obtain a where col: "?col = Inr a"
    and v': "output_array v' = a"
    and w': "w' = log_call (SixsCall rn ?s ?wl ''apparent_reflectance'') ?out w"
    and wl': "wavelengths v' = Some wls"
    unfolding body by (cases ?col) auto
  from col obtain vals where "fancy_index results gb = Inr vals"
    and "set_column nb m (output_array v) (i * n + j + 1) vals = Inr a"
    by (auto simp: bind_e_def split: sum.splits)
  moreover from w' out
  have "invocations w' = invocations w @ [(SixsCall rn ?s ?wl ''apparent_reflectance'', None)]"
    by simp
  ultimately show thesis
    using out res v' wl' by (intro that[of ?s ?wl wls results vals a]) simp_all
qed

lemma soil_bundle_stored:
  assumes "soil_bundle ext ts wl rn gb (length gb) m n sp gr i j v w = (Inr v', w')"
    and "has_shape (length gb) m (output_array v)"
  shows "\<exists>e. invocations w' = invocations w @ [e] \<and>
           stored_spectrum ext gb e (column (output_array v') (i * n + j + 1))"
    and "c \<noteq> i * n + j + 1 \<Longrightarrow> column (output_array v') c = column (output_array v) c"
proof -
  from assms(1) obtain s wl_arg wls results vals a where
    run: "run_sixs_params ext rn s wl_arg ''apparent_reflectance'' = Inr (wls, results)"
    and vals: "fancy_index results gb = Inr vals"
    and col: "set_column (length gb) m (output_array v) (i * n + j + 1) vals = Inr a"
    and a: "output_array v' = a"
    and log: "invocations w' = invocations w @ [(SixsCall rn s wl_arg ''apparent_reflectance'', None)]"
    and "wavelengths v' = Some wls"
    by (rule soil_bundle_stepE)
  from col assms(2) have "broadcast (length gb) vals = Inr (column a (i * n + j + 1))"
    by (rule set_column_same)
  with fancy_index_length[OF vals] have "column a (i * n + j + 1) = vals"
    by (simp add: broadcast_def)
  with run vals log a
  show "\<exists>e. invocations w' = invocations w @ [e] \<and>
           stored_spectrum ext gb e (column (output_array v') (i * n + j + 1))"
    by simp
  show "column (output_array v') c = column (output_array v) c" if "c \<noteq> i * n + j + 1"
    using set_column_other[OF col assms(2) that] a by simp
qed

lemma fills_Nil: "fills ext gb [] a w a w"
  by (simp add: fills_def)

lemma fills_append:
  assumes "fills ext gb cs a w a1 w1" and "fills ext gb ds a1 w1 a' w'"
    and "set cs \<inter> set ds = {}"
  shows "fills ext gb (cs @ ds) a w a' w'"
proof -
  from assms(1) obtain new1 where n1: "invocations w1 = invocations w @ new1"
    "length new1 = length cs"
    "\<forall>k<length cs. stored_spectrum ext gb (new1 ! k) (column a1 (cs ! k))"
    and u1: "\<forall>c. c \<notin> set cs \<longrightarrow> column a1 c = column a c"
    by (auto simp: fills_def)
  from assms(2) obtain new2 where n2: "invocations w' = invocations w1 @ new2"
    "length new2 = length ds"
    "\<forall>k<length ds. stored_spectrum ext gb (new2 ! k) (column a' (ds ! k))"
    and u2: "\<forall>c. c \<notin> set ds \<longrightarrow> column a' c = column a1 c"
    by (auto simp: fills_def)
  have "stored_spectrum ext gb ((new1 @ new2) ! k) (column a' ((cs @ ds) ! k))"
    if "k < length (cs @ ds)" for k
  proof (cases "k < length cs")
    case True
    then have "cs ! k \<in> set cs" by simp
    with assms(3) have "cs ! k \<notin> set ds" by auto
    with u2 have "column a' (cs ! k) = column a1 (cs ! k)" by simp
    with True n1 show ?thesis by (simp add: nth_append)
  next
    case False
    with that n1 n2 show ?thesis by (simp add: nth_append)
  qed
  moreover have "column a' c = column a c" if "c \<notin> set (cs @ ds)" for c
    using that u1 u2 by simp
  ultimately show ?thesis
    unfolding fills_def using n1(1,2) n2(1,2)
    by (intro conjI exI[of _ "new1 @ new2"]) simp_all
qed

lemma soil_bundle_fills:
  assumes "soil_bundle ext ts wl rn gb (length gb) m n sp gr i j v w = (Inr v', w')"
    and "has_shape (length gb) m (output_array v)"
  shows "fills ext gb [i * n + j + 1] (output_array v) w (output_array v') w'"
  using soil_bundle_stored[OF assms] by (auto simp: fills_def)

lemma soil_bundles_fills:
  "soil_bundles (soil_bundle ext ts wl rn gb (length gb) m n sp gr i) js v w = (Inr v', w') \<Longrightarrow>
     has_shape (length gb) m (output_array v) \<Longrightarrow> distinct js \<Longrightarrow>
     fills ext gb (map (\<lambda>j. i * n + j + 1) js) (output_array v) w (output_array v') w'"
proof (induction js arbitrary: v w)
  case Nil
  then show ?case by (simp add: fills_Nil)
next
  case (Cons j js)
  from Cons.prems(1) obtain v1 w1 where
    step: "soil_bundle ext ts wl rn gb (length gb) m n sp gr i j v w = (Inr v1, w1)"
    and rest: "soil_bundles (soil_bundle ext ts wl rn gb (length gb) m n sp gr i) js v1 w1
       = (Inr v', w')"
    by (auto split: prod.splits sum.splits)
  from soil_bundle_completed(2)[OF step] Cons.prems(2)
  have shape: "has_shape (length gb) m (output_array v1)" by simp
  from Cons.prems(3) have d: "distinct js" and "j \<notin> set js" by simp_all
  then have disj: "set [i * n + j + 1] \<inter> set (map (\<lambda>j. i * n + j + 1) js) = {}"
    by auto
  from fills_append[OF soil_bundle_fills[OF step Cons.prems(2)] Cons.IH[OF rest shape d] disj]
  show ?case by simp
qed

lemma soil_atmosphere_fills:
  assumes "soil_atmosphere ext d ob ts wl rn gb (length gb) m n sp i v w = (Inr v', w')"
    and "has_shape (length gb) m (output_array v)"
  shows "fills ext gb (map (\<lambda>j. i * n + j + 1) [0..<n]) (output_array v) w (output_array v') w'"
proof -
  from assms(1) obtain s gr w1
    where loop: "soil_bundles (soil_bundle ext ts wl rn gb (length gb) m n sp gr i) [0..<n]
                   (v\<lparr>sx := s\<rparr>) w = (Inr v', w1)"
      and w': "w' = write_file (output_sixs ob i) (SixsFile (sx v')) w1"
    unfolding soil_atmosphere_def by (auto split: sum.splits prod.splits)
  from soil_bundles_fills[OF loop] assms(2)
  have "fills ext gb (map (\<lambda>j. i * n + j + 1) [0..<n]) (output_array v) w (output_array v') w1"
    by simp
  then show ?thesis
    by (simp add: fills_def w')
qed

lemma atmosphere_columns_disjoint:
  assumes "i \<notin> set is"
  shows "set (map (\<lambda>j. i * n + j + 1) [0..<n])
      \<inter> set (concat (map (\<lambda>i. map (\<lambda>j. i * n + j + 1) [0..<n]) is)) = {}"
proof -
  have False if "j < n" and "j' < n" and "i' \<in> set is" and eq: "i * n + j = i' * n + j'"
    for j j' i'
  proof -
    from that(1) have "(i * n + j) div n = i" by simp
    moreover from that(2) have "(i' * n + j') div n = i'" by simp
    ultimately show False using eq that(3) assms by auto
  qed
  then show ?thesis by auto
qed

lemma soil_atmospheres_fills:
  "soil_atmospheres (soil_atmosphere ext d ob ts wl rn gb (length gb) m n sp) is v w
      = (Inr v', w') \<Longrightarrow>
     has_shape (length gb) m (output_array v) \<Longrightarrow> distinct is \<Longrightarrow>
     fills ext gb (concat (map (\<lambda>i. map (\<lambda>j. i * n + j + 1) [0..<n]) is))
       (output_array v) w (output_array v') w'"
proof (induction "is" arbitrary: v w)
  case Nil
  then show ?case by (simp add: fills_Nil)
next
  case (Cons i "is")
  from Cons.prems(1) obtain v1 w1
    where step: "soil_atmosphere ext d ob ts wl rn gb (length gb) m n sp i v w = (Inr v1, w1)"
      and rest: "soil_atmospheres (soil_atmosphere ext d ob ts wl rn gb (length gb) m n sp)
                   is v1 w1 = (Inr v', w')"
    by (auto split: prod.splits sum.splits)
  from soil_atmosphere_completed(1)[OF step] Cons.prems(2)
  have shape: "has_shape (length gb) m (output_array v1)" by simp
  from Cons.prems(3) have d: "distinct is" and ni: "i \<notin> set is" by simp_all
  from ni have disj: "set (map (\<lambda>j. i * n + j + 1) [0..<n])
      \<inter> set (concat (map (\<lambda>i. map (\<lambda>j. i * n + j + 1) [0..<n]) is)) = {}"
    by (rule atmosphere_columns_disjoint)
  from fills_append[OF soil_atmosphere_fills[OF step Cons.prems(2)] Cons.IH[OF rest shape d] disj]
  show ?case by simp
qed

lemma all_columns_in_order:
  "concat (map (\<lambda>i. map (\<lambda>j. i * n + j + 1) [0..<n]) [0..<na]) = map Suc [0..<na * n]"
proof (induction na)
  case 0
  show ?case by simp
next
  case (Suc na)
  have "map (\<lambda>j. na * n + j + 1) [0..<n] = map Suc (map (\<lambda>j. j + na * n) [0..<n])"
    by (simp add: add.commute)
  also have "map (\<lambda>j. j + na * n) [0..<n] = [na * n..<n + na * n]"
    by (rule map_add_upt)
  finally have last: "map (\<lambda>j. na * n + j + 1) [0..<n] = map Suc [na * n..<n + na * n]" .
  have "[0..<na * n + n] = [0..<na * n] @ [na * n..<na * n + n]"
    by (rule upt_add_eq_append) simp
  then have "[0..<Suc na * n] = [0..<na * n] @ [na * n..<n + na * n]"
    by (simp add: add.commute)
  with Suc last show ?case by simp
qed

lemma soil_bundle_wavelengths:
  assumes "soil_bundle ext ts wl rn gb nb m n sp gr i j v w = (Inr v', w')"
    and "wavelengths_from_last_run ext w0 v w"
  shows "wavelengths_from_last_run ext w0 v' w'"
proof -
  from assms(1) obtain s wl_arg wls results vals a where
    "run_sixs_params ext rn s wl_arg ''apparent_reflectance'' = Inr (wls, results)"
    "fancy_index results gb = Inr vals"
    "set_column nb m (output_array v) (i * n + j + 1) vals = Inr a"
    "output_array v' = a"
    "invocations w' = invocations w @ [(SixsCall rn s wl_arg ''apparent_reflectance'', None)]"
    "wavelengths v' = Some wls"
    by (rule soil_bundle_stepE)
  with assms(2) show ?thesis
    by (simp add: wavelengths_from_last_run_def)
qed

lemma soil_bundles_wavelengths:
  "soil_bundles (soil_bundle ext ts wl rn gb nb m n sp gr i) js v w = (Inr v', w') \<Longrightarrow>
     wavelengths_from_last_run ext w0 v w \<Longrightarrow> wavelengths_from_last_run ext w0 v' w'"
proof (induction js arbitrary: v w)
  case Nil
  then show ?case by simp
next
  case (Cons j js)
  from Cons.prems(1) obtain v1 w1 where
    step: "soil_bundle ext ts wl rn gb nb m n sp gr i j v w = (Inr v1, w1)"
    and rest: "soil_bundles (soil_bundle ext ts wl rn gb nb m n sp gr i) js v1 w1 = (Inr v', w')"
    by (auto split: prod.splits sum.splits)
  from soil_bundle_wavelengths[OF step Cons.prems(2)] Cons.IH[OF rest]
  show ?case by simp
qed

lemma soil_atmosphere_wavelengths:
  assumes "soil_atmosphere ext d ob ts wl rn gb nb m n sp i v w = (Inr v', w')"
    and "wavelengths_from_last_run ext w0 v w"
  shows "wavelengths_from_last_run ext w0 v' w'"
proof -
  from assms(1) obtain s gr w1
    where loop: "soil_bundles (soil_bundle ext ts wl rn gb nb m n sp gr i) [0..<n]
                   (v\<lparr>sx := s\<rparr>) w = (Inr v', w1)"
      and w': "w' = write_file (output_sixs ob i) (SixsFile (sx v')) w1"
    unfolding soil_atmosphere_def by (auto split: sum.splits prod.splits)
  from assms(2) have "wavelengths_from_last_run ext w0 (v\<lparr>sx := s\<rparr>) w"
    by (simp add: wavelengths_from_last_run_def)
  from soil_bundles_wavelengths[OF loop this] show ?thesis
    by (simp add: wavelengths_from_last_run_def w' split: option.splits)
qed

lemma soil_atmospheres_wavelengths:
  "soil_atmospheres (soil_atmosphere ext d ob ts wl rn gb nb m n sp) is v w = (Inr v', w') \<Longrightarrow>
     wavelengths_from_last_run ext w0 v w \<Longrightarrow> wavelengths_from_last_run ext w0 v' w'"
proof (induction "is" arbitrary: v w)
  case Nil
  then show ?case by simp
next
  case (Cons i "is")
  from Cons.prems(1) obtain v1 w1
    where step: "soil_atmosphere ext d ob ts wl rn gb nb m n sp i v w = (Inr v1, w1)"
      and rest: "soil_atmospheres (soil_atmosphere ext d ob ts wl rn gb nb m n sp) is v1 w1
                   = (Inr v', w')"
    by (auto split: prod.splits sum.splits)
  from soil_atmosphere_wavelengths[OF step Cons.prems(2)] Cons.IH[OF rest]
  show ?case by simp
qed

lemma soil_simulation_stored:
  assumes "soil_simulation ob na n ts wl ext d w = (Inr (gb, a, axis), w')"
  shows "\<forall>k<n * na. stored_spectrum ext gb (new_invocations w w' ! k) (column a (Suc k))"
    and "0 < n * na"
    and "stored_axis ext gb (new_invocations w w' ! (n * na - 1)) axis"
proof -
  from assms obtain sp rn num_bands v wls
    where cfg: "sensor_config ts wl = Inr (rn, num_bands, gb)"
      and loop: "soil_atmospheres
                   (soil_atmosphere ext d ob ts wl rn gb (length gb) (Suc (n * na)) n sp)
                   [0..<na]
                   \<lparr> sx = sixs_initial ext, output_array = zeros (length gb) (Suc (n * na)),
                      wavelengths = None \<rparr> w = (Inr v, w')"
      and wls: "wavelengths v = Some wls"
      and axis: "fancy_index wls gb = Inr axis"
      and col: "set_column (length gb) (Suc (n * na)) (output_array v) 0 axis = Inr a"
    by (rule soil_simulation_loops)
  from soil_atmospheres_shape[OF loop]
  have shape_v: "has_shape (length gb) (Suc (n * na)) (output_array v)"
    by (simp add: has_shape_zeros)
  have "fills ext gb (concat (map (\<lambda>i. map (\<lambda>j. i * n + j + 1) [0..<n]) [0..<na]))
      (zeros (length gb) (Suc (n * na))) w (output_array v) w'"
    using soil_atmospheres_fills[OF loop] by (simp add: has_shape_zeros)
  then have "fills ext gb (map Suc [0..<na * n]) (zeros (length gb) (Suc (n * na))) w
      (output_array v) w'"
    unfolding all_columns_in_order .
  then obtain new where new: "invocations w' = invocations w @ new"
    and len: "length new = na * n"
    and stored: "\<forall>k<na * n. stored_spectrum ext gb (new ! k) (column (output_array v) (Suc k))"
    by (auto simp: fills_def)
  from new have n: "new_invocations w w' = new"
    by (simp add: new_invocations_def)
  have "stored_spectrum ext gb (new_invocations w w' ! k) (column a (Suc k))"
    if "k < n * na" for k
  proof -
    from col shape_v have "column a (Suc k) = column (output_array v) (Suc k)"
      by (rule set_column_other) simp
    with stored that show ?thesis
      by (simp add: n mult.commute)
  qed
  then show "\<forall>k<n * na. stored_spectrum ext gb (new_invocations w w' ! k) (column a (Suc k))"
    by blast
  have "wavelengths_from_last_run ext w
      \<lparr> sx = sixs_initial ext, output_array = zeros (length gb) (Suc (n * na)),
         wavelengths = None \<rparr> w"
    by (simp add: wavelengths_from_last_run_def)
  from soil_atmospheres_wavelengths[OF loop this] wls
  have grown: "length (invocations w) < length (invocations w')"
    and last: "wavelengths_of ext (last (invocations w')) = Some wls"
    by (simp_all add: wavelengths_from_last_run_def)
  from grown new have ne: "new \<noteq> []" by auto
  with len show pos: "0 < n * na" by (cases "n * na") (simp_all add: mult.commute)
  from ne new have "last (invocations w') = last new"
    by simp
  also from ne have "last new = new ! (length new - 1)"
    by (rule last_conv_nth)
  finally have "last (invocations w') = new ! (length new - 1)" .
  with last len have "wavelengths_of ext (new ! (n * na - 1)) = Some wls"
    by (simp add: mult.commute)
  with axis show "stored_axis ext gb (new_invocations w w' ! (n * na - 1)) axis"
    by (simp add: stored_axis_def n)
qed

text \<open>
  What a run of the soil script that reaches the export leaves behind: it ends at line
  299, the CSV and the \<^verbatim>\<open>.sli\<close> file are written from the filled array, and the
  header path is as it was.
\<close>

lemma soil_exported_rows:
  assumes "\<not> isl (fst (soil_simulation ob na n ts wl ext d w))"
    and "soil_script ob na n ts wl ext d w = (r, w')"
  obtains rn num_bands gb rows vals where
    "r = Inl (NameError ''envi'')"
    "sensor_config ts wl = Inr (rn, num_bands, gb)"
    "files w' (ob @ ''_speclib.csv'') = Some (CsvFile rows)"
    "files w' (ob @ ''_speclib.sli'') = Some (SliFile vals)"
    "length rows = n * na + 1" "list_all (\<lambda>row. length row = length gb) rows"
    "vals = concat (tl rows)" "length vals = n * na * length gb"
    "\<forall>s<n * na. \<forall>b<length gb. vals ! (s * length gb + b) = rows ! (s + 1) ! b"
    "\<forall>k<n * na. stored_spectrum ext gb (new_invocations w w' ! k) (rows ! (k + 1))"
    "0 < n * na"
    "stored_axis ext gb (new_invocations w w' ! (n * na - 1)) (rows ! 0)"
proof -
  obtain r1 w1 where sim1: "soil_simulation ob na n ts wl ext d w = (r1, w1)"
    by (cases "soil_simulation ob na n ts wl ext d w")
  with assms(1) obtain x where x: "r1 = Inr x"
    by (cases r1) simp_all
  obtain gb a axis where "x = (gb, a, axis)"
    by (cases x)
  with sim1 x have sim: "soil_simulation ob na n ts wl ext d w = (Inr (gb, a, axis), w1)"
    by simp
  from sim obtain rn num_bands where cfg: "sensor_config ts wl = Inr (rn, num_bands, gb)"
    and shape: "has_shape (length gb) (Suc (n * na)) a"
    and axis: "column a 0 = axis"
    by (rule soil_simulation_completed)
  note stored = soil_simulation_stored[OF sim]
  let ?rows = "transpose_nd (Suc (n * na)) a"
  let ?vals = "tofile (transpose_nd (n * na) (drop_first_column a))"
  from soil_script_exported[OF sim] assms(2)
  have r: "r = Inl (NameError ''envi'')"
    and w': "w' = write_file (ob @ ''_speclib.sli'') (SliFile ?vals)
                   (write_file (ob @ ''_speclib.csv'') (CsvFile ?rows) w1)"
    by simp_all
  from w' have inv: "new_invocations w w' = new_invocations w w1"
    by (simp add: new_invocations_def)
  note layout = artifact_layout[OF shape]
  show thesis
  proof (rule that[of rn num_bands gb ?rows ?vals])
    show "r = Inl (NameError ''envi'')" by (rule r)
    show "sensor_config ts wl = Inr (rn, num_bands, gb)" by (rule cfg)
    show "files w' (ob @ ''_speclib.csv'') = Some (CsvFile ?rows)" by (simp add: w')
    show "files w' (ob @ ''_speclib.sli'') = Some (SliFile ?vals)" by (simp add: w')
    show "length ?rows = n * na + 1" using layout(1) by simp
    show "list_all (\<lambda>row. length row = length gb) ?rows" by (rule layout(2))
    show "?vals = concat (tl ?rows)" by (rule layout(4))
    show "length ?vals = n * na * length gb" by (rule layout(5))
    show "\<forall>s<n * na. \<forall>b<length gb. ?vals ! (s * length gb + b) = ?rows ! (s + 1) ! b"
      using layout(6) by simp
    show "\<forall>k<n * na. stored_spectrum ext gb (new_invocations w w' ! k) (?rows ! (k + 1))"
      using stored(1) by (simp add: inv transpose_nd_nth)
    show "0 < n * na" by (rule stored(2))
    show "stored_axis ext gb (new_invocations w w' ! (n * na - 1)) (?rows ! 0)"
      using stored(3) by (simp add: inv layout(3) axis)
  qed
qed

section \<open>The claims about the exported artifacts\<close>

text \<open>
  C1, as the code has it: the CSV file has one row per entry of
  [wavelength, spectrum 1, ..., spectrum N] and one column per wavelength sample. Row 0
  is the wavelength axis of the last simulation, and row \<open>k + 1\<close> is the spectrum of
  invocation \<open>k\<close> of the model. In the vegetation script this holds of every completed
  run, N is the number of bundles, the rows are the columns of what the canopy model
  returned (a single value is repeated) and every number is rounded to three decimals. In
  the soil script it holds of every run that reaches the export, which then ends at line
  299; N is the number of bundles times the number of atmospheres, and the rows are the
  good bands of what the 6S run returned.
\<close>

theorem csv_has_one_row_per_spectrum:
  "(veg_script output_base n_bundles nb run rs w = Some (Inr (), w') \<longrightarrow>
      (\<exists>rows. files w' (output_base @ ''_speclib.csv'') = Some (CsvFile rows) \<and>
         length rows = n_bundles + 1 \<and> list_all (\<lambda>row. length row = nb) rows \<and>
         (\<exists>args s axis. new_invocations w w' ! (n_bundles - 1) = (ProsailCall args, None) \<and>
            run args = Inr s \<and> broadcast nb (map fst s) = Inr axis \<and>
            rows ! 0 = map fmt_3f axis) \<and>
         (\<forall>j<n_bundles. \<exists>args s col. new_invocations w w' ! j = (ProsailCall args, None) \<and>
            run args = Inr s \<and> broadcast nb (map snd s) = Inr col \<and>
            rows ! (j + 1) = map fmt_3f col))) \<and>
   (soil_script soil_base n_atmospheres n_soils target_sensor wl ext d sw = (sr, sw') \<longrightarrow>
    \<not> isl (fst (soil_simulation soil_base n_atmospheres n_soils target_sensor wl ext d sw)) \<longrightarrow>
      sr = Inl (NameError ''envi'') \<and>
      (\<exists>rows rn num_bands good_bands.
         sensor_config target_sensor wl = Inr (rn, num_bands, good_bands) \<and>
         files sw' (soil_base @ ''_speclib.csv'') = Some (CsvFile rows) \<and>
         length rows = n_soils * n_atmospheres + 1 \<and>
         list_all (\<lambda>row. length row = length good_bands) rows \<and>
         stored_axis ext good_bands
           (new_invocations sw sw' ! (n_soils * n_atmospheres - 1)) (rows ! 0) \<and>
         (\<forall>k<n_soils * n_atmospheres.
            stored_spectrum ext good_bands (new_invocations sw sw' ! k) (rows ! (k + 1)))))"
proof (intro conjI impI)
  assume "veg_script output_base n_bundles nb run rs w = Some (Inr (), w')"
  then obtain exact vals md where
    csv: "files w' (output_base @ ''_speclib.csv'') = Some (CsvFile (savetxt fmt_3f exact))"
    and "files w' (output_base @ ''_speclib.sli'') = Some (SliFile vals)"
    and "files w' (output_base @ ''_speclib.hdr'') = Some (HdrFile md)"
    and "md = \<lparr> samples = nb, lines = n_bundles, bands = 1, data_type = 5,
               header_offset = 0, interleave = ''bsq'', byte_order = 0,
               sensor_type = ''prosail'', spectra_names = veg_output_spec n_bundles,
               wavelength_units = ''micrometers'', wavelength = exact ! 0 \<rparr>"
    and len: "length exact = n_bundles + 1"
    and all: "list_all (\<lambda>row. length row = nb) exact"
    and "vals = concat (tl exact)" and "length vals = n_bundles * nb"
    and "\<forall>s<n_bundles. \<forall>b<nb. vals ! (s * nb + b) = exact ! (s + 1) ! b"
    and cols: "\<forall>j<n_bundles. \<exists>args s. new_invocations w w' ! j = (ProsailCall args, None) \<and>
       run args = Inr s \<and> broadcast nb (map snd s) = Inr (exact ! (j + 1))"
    and "0 < n_bundles"
    and axis: "\<exists>args s. new_invocations w w' ! (n_bundles - 1) = (ProsailCall args, None) \<and>
       run args = Inr s \<and> broadcast nb (map fst s) = Inr (exact ! 0)"
    by (rule veg_completed_rows)
  let ?rows = "savetxt fmt_3f exact"
  have "length ?rows = n_bundles + 1"
    using len by (simp add: savetxt_shape(1))
  moreover have "list_all (\<lambda>row. length row = nb) ?rows"
    using all by (rule savetxt_shape(2))
  moreover have "\<exists>args s axis. new_invocations w w' ! (n_bundles - 1) = (ProsailCall args, None) \<and>
            run args = Inr s \<and> broadcast nb (map fst s) = Inr axis \<and>
            ?rows ! 0 = map fmt_3f axis"
    using axis len by (auto simp: savetxt_shape(3))
  moreover have "\<forall>j<n_bundles. \<exists>args s col.
            new_invocations w w' ! j = (ProsailCall args, None) \<and>
            run args = Inr s \<and> broadcast nb (map snd s) = Inr col \<and>
            ?rows ! (j + 1) = map fmt_3f col"
  proof (intro allI impI)
    fix j assume j: "j < n_bundles"
    with cols obtain args s where "new_invocations w w' ! j = (ProsailCall args, None)"
      and "run args = Inr s" and "broadcast nb (map snd s) = Inr (exact ! (j + 1))"
      by blast
    moreover from j len have "?rows ! (j + 1) = map fmt_3f (exact ! (j + 1))"
      by (simp add: savetxt_shape(3))
    ultimately show "\<exists>args s col. new_invocations w w' ! j = (ProsailCall args, None) \<and>
            run args = Inr s \<and> broadcast nb (map snd s) = Inr col \<and>
            ?rows ! (j + 1) = map fmt_3f col"
      by blast
  qed
  ultimately show "\<exists>rows. files w' (output_base @ ''_speclib.csv'') = Some (CsvFile rows) \<and>
         length rows = n_bundles + 1 \<and> list_all (\<lambda>row. length row = nb) rows \<and>
         (\<exists>args s axis. new_invocations w w' ! (n_bundles - 1) = (ProsailCall args, None) \<and>
            run args = Inr s \<and> broadcast nb (map fst s) = Inr axis \<and>
            rows ! 0 = map fmt_3f axis) \<and>
         (\<forall>j<n_bundles. \<exists>args s col. new_invocations w w' ! j = (ProsailCall args, None) \<and>
            run args = Inr s \<and> broadcast nb (map snd s) = Inr col \<and>
            rows ! (j + 1) = map fmt_3f col)"
    using csv by (intro exI[of _ ?rows] conjI)
next
  assume run: "soil_script soil_base n_atmospheres n_soils target_sensor wl ext d sw = (sr, sw')"
    and reach: "\<not> isl (fst (soil_simulation soil_base n_atmospheres n_soils target_sensor wl
      ext d sw))"
  from reach run obtain rn num_bands gb rows vals where
    "sr = Inl (NameError ''envi'')"
    "sensor_config target_sensor wl = Inr (rn, num_bands, gb)"
    "files sw' (soil_base @ ''_speclib.csv'') = Some (CsvFile rows)"
    "files sw' (soil_base @ ''_speclib.sli'') = Some (SliFile vals)"
    "length rows = n_soils * n_atmospheres + 1"
    "list_all (\<lambda>row. length row = length gb) rows"
    "vals = concat (tl rows)" "length vals = n_soils * n_atmospheres * length gb"
    "\<forall>s<n_soils * n_atmospheres. \<forall>b<length gb.
       vals ! (s * length gb + b) = rows ! (s + 1) ! b"
    "\<forall>k<n_soils * n_atmospheres.
       stored_spectrum ext gb (new_invocations sw sw' ! k) (rows ! (k + 1))"
    "0 < n_soils * n_atmospheres"
    "stored_axis ext gb (new_invocations sw sw' ! (n_soils * n_atmospheres - 1)) (rows ! 0)"
    by (rule soil_exported_rows)
  note facts = this
  from facts(1) show "sr = Inl (NameError ''envi'')" .
  from facts show "\<exists>rows rn num_bands good_bands.
         sensor_config target_sensor wl = Inr (rn, num_bands, good_bands) \<and>
         files sw' (soil_base @ ''_speclib.csv'') = Some (CsvFile rows) \<and>
         length rows = n_soils * n_atmospheres + 1 \<and>
         list_all (\<lambda>row. length row = length good_bands) rows \<and>
         stored_axis ext good_bands
           (new_invocations sw sw' ! (n_soils * n_atmospheres - 1)) (rows ! 0) \<and>
         (\<forall>k<n_soils * n_atmospheres.
            stored_spectrum ext good_bands (new_invocations sw sw' ! k) (rows ! (k + 1)))"
    by (intro exI[of _ rows] exI[of _ rn] exI[of _ num_bands] exI[of _ gb]) simp
qed

theorem csv_has_one_row_per_spectrum_witness:
  "veg_script ''lib'' 3 5 five_band_model demo_stream empty_world = Some (Inr (), demo_world) \<and>
   soil_script ''soil'' 2 3 ''custom'' demo_wl demo_externals demo_draws empty_world
     = (Inl (NameError ''envi''), soil_demo_world) \<and>
   \<not> isl (fst (soil_simulation ''soil'' 2 3 ''custom'' demo_wl demo_externals demo_draws
     empty_world)) \<and>
   length (csv_rows demo_world ''lib_speclib.csv'') = 4 \<and>
   list_all (\<lambda>row. length row = 5) (csv_rows demo_world ''lib_speclib.csv'') \<and>
   length (csv_rows soil_demo_world ''soil_speclib.csv'') = 7 \<and>
   list_all (\<lambda>row. length row = 5) (csv_rows soil_demo_world ''soil_speclib.csv'')"
  using csv_has_one_row_per_spectrum[of "''lib''" 3 5 five_band_model demo_stream empty_world
      demo_world "''soil''" 2 3 "''custom''" demo_wl demo_externals demo_draws empty_world
      "Inl (NameError ''envi'')" soil_demo_world]
    demo_run soil_demo_run soil_demo_reaches_export
  by (auto simp: csv_rows_def demo_sensor Suc_5)

theorem csv_five_rows_four_columns_counterexample:
  "veg_script ''lib'' 3 5 five_band_model demo_stream empty_world = Some (Inr (), demo_world) \<and>
   length (csv_rows demo_world ''lib_speclib.csv'') = 4 \<and>
   map length (csv_rows demo_world ''lib_speclib.csv'') = [5, 5, 5, 5] \<and>
   length (csv_rows demo_world ''lib_speclib.csv'') \<noteq> 5"
  using demo_run by (simp add: csv_rows_def demo_world_files)

text \<open>
  C2, evaluated on the run with three bundles: the sampler draws the solar azimuths 0, 180
  and 90, but every call of the model carries the angles of the last bundle, because the
  loop over \<^verbatim>\<open>j\<close> reads the geometry lists at the stale index \<^verbatim>\<open>i\<close>. The CSV row of
  bundle 0 is the model's answer for azimuth 90, where the model on bundle 0's own
  parameter set (azimuth 0) answers differently.
\<close>

theorem veg_geometry_read_at_stale_index:
  "veg_script ''lib'' 3 5 five_band_model demo_stream empty_world = Some (Inr (), demo_world) \<and>
   sample_params demo_stream 3 = Some (demo_params, 37) \<and>
   s_az demo_params = [0, 180, 90] \<and>
   map fst (invocations demo_world) = [demo_call 35, demo_call 45, demo_call 20] \<and>
   csv_rows demo_world ''lib_speclib.csv'' ! 1 = [35, 3, 90, 20, 0] \<and>
   bind_e (bundle_args demo_params 0 0) five_band_model
     = Inr [(0.4, 35), (0.5, 3), (0.6, 0), (0.7, 20), (0.8, 0)]"
  using demo_run demo_sample
  by (simp add: csv_rows_def demo_world_files)
     (simp add: demo_world_def demo_params_def bind_e_def bundle_args_def five_band_model_def)

text \<open>
  C4, as the code has it: the \<^verbatim>\<open>.sli\<close> file holds the spectra without the wavelength
  axis, spectrum by spectrum: the values of spectrum 1 for all bands, then the values of
  spectrum 2 for all bands, and so on, so the value of spectrum \<open>s\<close> at band \<open>b\<close> is at
  offset \<open>s * nb + b\<close>. Spectrum \<open>s\<close> is what invocation \<open>s\<close> of the model returned,
  unrounded; the CSV's rows after the first, one after the other, are these values (in the
  vegetation script rounded to three decimals). This holds of every completed run of
  the vegetation script and of every run of the soil script that reaches the export.
\<close>

theorem sli_is_spectrum_by_spectrum:
  "(veg_script output_base n_bundles nb run rs w = Some (Inr (), w') \<longrightarrow>
      (\<exists>rows vals. files w' (output_base @ ''_speclib.csv'') = Some (CsvFile rows) \<and>
         files w' (output_base @ ''_speclib.sli'') = Some (SliFile vals) \<and>
         length vals = n_bundles * nb \<and> concat (tl rows) = map fmt_3f vals \<and>
         (\<forall>j<n_bundles. \<exists>args s col. new_invocations w w' ! j = (ProsailCall args, None) \<and>
            run args = Inr s \<and> broadcast nb (map snd s) = Inr col \<and>
            (\<forall>b<nb. vals ! (j * nb + b) = col ! b)))) \<and>
   (soil_script soil_base n_atmospheres n_soils target_sensor wl ext d sw = (sr, sw') \<longrightarrow>
    \<not> isl (fst (soil_simulation soil_base n_atmospheres n_soils target_sensor wl ext d sw)) \<longrightarrow>
      (\<exists>rows vals rn num_bands good_bands.
         sensor_config target_sensor wl = Inr (rn, num_bands, good_bands) \<and>
         files sw' (soil_base @ ''_speclib.csv'') = Some (CsvFile rows) \<and>
         files sw' (soil_base @ ''_speclib.sli'') = Some (SliFile vals) \<and>
         length vals = n_soils * n_atmospheres * length good_bands \<and>
         concat (tl rows) = vals \<and>
         (\<forall>k<n_soils * n_atmospheres. \<exists>col.
            stored_spectrum ext good_bands (new_invocations sw sw' ! k) col \<and>
            (\<forall>b<length good_bands. vals ! (k * length good_bands + b) = col ! b))))"
proof (intro conjI impI)
  assume "veg_script output_base n_bundles nb run rs w = Some (Inr (), w')"
  then obtain exact vals md where
    csv: "files w' (output_base @ ''_speclib.csv'') = Some (CsvFile (savetxt fmt_3f exact))"
    and sli: "files w' (output_base @ ''_speclib.sli'') = Some (SliFile vals)"
    and "files w' (output_base @ ''_speclib.hdr'') = Some (HdrFile md)"
    and "md = \<lparr> samples = nb, lines = n_bundles, bands = 1, data_type = 5,
               header_offset = 0, interleave = ''bsq'', byte_order = 0,
               sensor_type = ''prosail'', spectra_names = veg_output_spec n_bundles,
               wavelength_units = ''micrometers'', wavelength = exact ! 0 \<rparr>"
    and "length exact = n_bundles + 1"
    and "list_all (\<lambda>row. length row = nb) exact"
    and vals: "vals = concat (tl exact)" and lvals: "length vals = n_bundles * nb"
    and at: "\<forall>s<n_bundles. \<forall>b<nb. vals ! (s * nb + b) = exact ! (s + 1) ! b"
    and cols: "\<forall>j<n_bundles. \<exists>args s. new_invocations w w' ! j = (ProsailCall args, None) \<and>
       run args = Inr s \<and> broadcast nb (map snd s) = Inr (exact ! (j + 1))"
    and "0 < n_bundles"
    and "\<exists>args s. new_invocations w w' ! (n_bundles - 1) = (ProsailCall args, None) \<and>
       run args = Inr s \<and> broadcast nb (map fst s) = Inr (exact ! 0)"
    by (rule veg_completed_rows)
  have "concat (tl (savetxt fmt_3f exact)) = map fmt_3f vals"
    by (simp add: savetxt_shape(4) vals)
  moreover have "\<forall>j<n_bundles. \<exists>args s col.
            new_invocations w w' ! j = (ProsailCall args, None) \<and>
            run args = Inr s \<and> broadcast nb (map snd s) = Inr col \<and>
            (\<forall>b<nb. vals ! (j * nb + b) = col ! b)"
  proof (intro allI impI)
    fix j assume j: "j < n_bundles"
    with cols obtain args s where "new_invocations w w' ! j = (ProsailCall args, None)"
      and "run args = Inr s" and "broadcast nb (map snd s) = Inr (exact ! (j + 1))"
      by blast
    moreover from at j have "\<forall>b<nb. vals ! (j * nb + b) = exact ! (j + 1) ! b"
      by simp
    ultimately show "\<exists>args s col. new_invocations w w' ! j = (ProsailCall args, None) \<and>
            run args = Inr s \<and> broadcast nb (map snd s) = Inr col \<and>
            (\<forall>b<nb. vals ! (j * nb + b) = col ! b)"
      by blast
  qed
  ultimately show "\<exists>rows vals. files w' (output_base @ ''_speclib.csv'') = Some (CsvFile rows) \<and>
         files w' (output_base @ ''_speclib.sli'') = Some (SliFile vals) \<and>
         length vals = n_bundles * nb \<and> concat (tl rows) = map fmt_3f vals \<and>
         (\<forall>j<n_bundles. \<exists>args s col. new_invocations w w' ! j = (ProsailCall args, None) \<and>
            run args = Inr s \<and> broadcast nb (map snd s) = Inr col \<and>
            (\<forall>b<nb. vals ! (j * nb + b) = col ! b))"
    using csv sli lvals by (intro exI[of _ "savetxt fmt_3f exact"] exI[of _ vals] conjI)
next
  assume run: "soil_script soil_base n_atmospheres n_soils target_sensor wl ext d sw = (sr, sw')"
    and reach: "\<not> isl (fst (soil_simulation soil_base n_atmospheres n_soils target_sensor wl
      ext d sw))"
  from reach run obtain rn num_bands gb rows vals where
    "sr = Inl (NameError ''envi'')"
    and cfg: "sensor_config target_sensor wl = Inr (rn, num_bands, gb)"
    and csv: "files sw' (soil_base @ ''_speclib.csv'') = Some (CsvFile rows)"
    and sli: "files sw' (soil_base @ ''_speclib.sli'') = Some (SliFile vals)"
    and "length rows = n_soils * n_atmospheres + 1"
    and "list_all (\<lambda>row. length row = length gb) rows"
    and vals: "vals = concat (tl rows)"
    and lvals: "length vals = n_soils * n_atmospheres * length gb"
    and at: "\<forall>s<n_soils * n_atmospheres. \<forall>b<length gb.
       vals ! (s * length gb + b) = rows ! (s + 1) ! b"
    and stored: "\<forall>k<n_soils * n_atmospheres.
       stored_spectrum ext gb (new_invocations sw sw' ! k) (rows ! (k + 1))"
    and "0 < n_soils * n_atmospheres"
    and "stored_axis ext gb (new_invocations sw sw' ! (n_soils * n_atmospheres - 1)) (rows ! 0)"
    by (rule soil_exported_rows)
  have "\<forall>k<n_soils * n_atmospheres. \<exists>col.
            stored_spectrum ext gb (new_invocations sw sw' ! k) col \<and>
            (\<forall>b<length gb. vals ! (k * length gb + b) = col ! b)"
    using stored at by blast
  with cfg csv sli vals lvals
  show "\<exists>rows vals rn num_bands good_bands.
         sensor_config target_sensor wl = Inr (rn, num_bands, good_bands) \<and>
         files sw' (soil_base @ ''_speclib.csv'') = Some (CsvFile rows) \<and>
         files sw' (soil_base @ ''_speclib.sli'') = Some (SliFile vals) \<and>
         length vals = n_soils * n_atmospheres * length good_bands \<and>
         concat (tl rows) = vals \<and>
         (\<forall>k<n_soils * n_atmospheres. \<exists>col.
            stored_spectrum ext good_bands (new_invocations sw sw' ! k) col \<and>
            (\<forall>b<length good_bands. vals ! (k * length good_bands + b) = col ! b))"
    by (intro exI[of _ rows] exI[of _ vals] exI[of _ rn] exI[of _ num_bands] exI[of _ gb]) simp
qed

theorem sli_is_spectrum_by_spectrum_witness:
  "veg_script ''lib'' 3 5 five_band_model demo_stream empty_world = Some (Inr (), demo_world) \<and>
   soil_script ''soil'' 2 3 ''custom'' demo_wl demo_externals demo_draws empty_world
     = (Inl (NameError ''envi''), soil_demo_world) \<and>
   \<not> isl (fst (soil_simulation ''soil'' 2 3 ''custom'' demo_wl demo_externals demo_draws
     empty_world)) \<and>
   concat (tl (csv_rows demo_world ''lib_speclib.csv''))
     = map fmt_3f (sli_values demo_world ''lib_speclib.sli'') \<and>
   length (sli_values demo_world ''lib_speclib.sli'') = 3 * 5 \<and>
   concat (tl (csv_rows soil_demo_world ''soil_speclib.csv''))
     = sli_values soil_demo_world ''soil_speclib.sli'' \<and>
   length (sli_values soil_demo_world ''soil_speclib.sli'') = 3 * 2 * 5 \<and>
   veg_script ''fine'' 1 2 sixteenth_model demo_stream empty_world
     = Some (Inr (), rounding_world) \<and>
   sli_values rounding_world ''fine_speclib.sli'' = [2.1875, 0.1875] \<and>
   csv_rows rounding_world ''fine_speclib.csv'' = [[0.4, 0.5], [2.188, 0.188]] \<and>
   concat (tl (csv_rows rounding_world ''fine_speclib.csv''))
     = map fmt_3f (sli_values rounding_world ''fine_speclib.sli'')"
proof -
  have fine: "sli_values rounding_world ''fine_speclib.sli'' = [2.1875, 0.1875]"
    "csv_rows rounding_world ''fine_speclib.csv'' = [[0.4, 0.5], [2.188, 0.188]]"
    by (simp_all add: sli_values_def csv_rows_def rounding_world_def)
  from sli_is_spectrum_by_spectrum[of "''fine''" 1 2 sixteenth_model demo_stream empty_world
      rounding_world "''soil''" 2 3 "''custom''" demo_wl demo_externals demo_draws empty_world
      "Inl (NameError ''envi'')" soil_demo_world] rounding_run
  have "concat (tl (csv_rows rounding_world ''fine_speclib.csv''))
     = map fmt_3f (sli_values rounding_world ''fine_speclib.sli'')"
    by (auto simp: csv_rows_def sli_values_def)
  with fine sli_is_spectrum_by_spectrum[of "''lib''" 3 5 five_band_model demo_stream empty_world
      demo_world "''soil''" 2 3 "''custom''" demo_wl demo_externals demo_draws empty_world
      "Inl (NameError ''envi'')" soil_demo_world]
    demo_run soil_demo_run soil_demo_reaches_export rounding_run
  show ?thesis
    by (auto simp: csv_rows_def sli_values_def demo_sensor)
qed

theorem sli_band_sequential_counterexample:
  "veg_script ''lib'' 3 5 five_band_model demo_stream empty_world = Some (Inr (), demo_world) \<and>
   sli_values demo_world ''lib_speclib.sli''
     = [35, 3, 90, 20, 0, 45, 3, 90, 20, 0, 20, 3, 90, 20, 0] \<and>
   spec_band_sequential 5 (tl (csv_rows demo_world ''lib_speclib.csv''))
     = [35, 45, 20, 3, 3, 3, 90, 90, 90, 20, 20, 20, 0, 0, 0] \<and>
   sli_values demo_world ''lib_speclib.sli''
     \<noteq> spec_band_sequential 5 (tl (csv_rows demo_world ''lib_speclib.csv''))"
  using demo_run
  by (simp add: csv_rows_def sli_values_def demo_world_files spec_band_sequential_def upt_5)





section \<open>The claims about errors\<close>

text \<open>
  C7: for every sensor name outside the sixteen supported ones the soil script stops with
  an error and leaves the world as it was: no model invocation is logged and no file is
  written. When the sampling of the soil files before the sensor chain succeeds (no
  more bundles asked than there are files, the drawn indices within the list), the error
  is the configuration error \<^verbatim>\<open>OSError('Unsupported sensor configuration')\<close>.
\<close>

theorem unsupported_sensor_stops_before_any_simulation:
  "target_sensor \<notin> set supported_sensors \<Longrightarrow>
     (\<exists>e. soil_script output_base n_atmospheres n_bundles target_sensor wl ext d w = (Inl e, w)) \<and>
     (n_bundles \<le> length soil_files \<and> list_all (\<lambda>i. i < length soil_files) (srnd d) \<longrightarrow>
        soil_script output_base n_atmospheres n_bundles target_sensor wl ext d w
          = (Inl (OSError ''Unsupported sensor configuration''), w))"
proof -
  assume "target_sensor \<notin> set supported_sensors"
  then have cfg: "sensor_config target_sensor wl
      = Inl (OSError ''Unsupported sensor configuration'')"
    by (rule sensor_config_unsupported)
  show ?thesis
  proof (cases "bind_e (random_sample (srnd d) (length soil_files) n_bundles) pick_files")
    case (Inl e)
    then have "soil_script output_base n_atmospheres n_bundles target_sensor wl ext d w
        = (Inl e, w)"
      by (simp add: soil_script_def soil_simulation_def)
    moreover from Inl
    have "\<not> (n_bundles \<le> length soil_files \<and> list_all (\<lambda>i. i < length soil_files) (srnd d))"
      using pick_files_ok[of "srnd d"] by (auto simp: bind_e_def random_sample_def)
    ultimately show ?thesis by blast
  next
    case (Inr sp)
    with cfg show ?thesis by (simp add: soil_script_def soil_simulation_def)
  qed
qed

theorem unsupported_sensor_stops_before_any_simulation_witness:
  "''hyperion'' \<notin> set supported_sensors \<and>
   soil_script ''soil'' 2 3 ''hyperion'' demo_wl demo_externals demo_draws empty_world
     = (Inl (OSError ''Unsupported sensor configuration''), empty_world) \<and>
   invocations empty_world = [] \<and> files empty_world ''soil_speclib.csv'' = None"
  using unsupported_sensor_stops_before_any_simulation[OF hyperion_unsupported,
      of "''soil''" 2 3 demo_wl demo_externals demo_draws empty_world]
    hyperion_unsupported
  by (simp add: demo_draws_def soil_files_def) (simp add: empty_world_def)

text \<open>
  C8, as the code has it: when the soil file is read and has a spectrum, the model is
  invoked with the wavelength axis divided by 1000 if the unit tag is exactly
  \<^verbatim>\<open>Nanometers\<close>, and with the axis as read for every other tag; no unit tag makes
  the preprocessing fail.
\<close>

theorem soil_axis_converted_only_for_nanometers:
  "idx soil_spectra j = Inr path \<Longrightarrow> readJFSC ext path = Inr soil0 \<Longrightarrow>
   remove_water_bands ext soil0 = Inr soil \<Longrightarrow> spectra soil = reflectance # rest \<Longrightarrow>
     soil_spectrum soil
       = Inr (if band_unit soil = ''Nanometers'' then map (\<lambda>x. x / 1000) (band_centers soil)
              else band_centers soil, reflectance) \<and>
     (\<exists>outcome. new_invocations w
         (snd (soil_bundle ext target_sensor wl run_sixs good_bands nb m n_bundles soil_spectra
                 ground_refl i j v w))
       = [(SixsCall run_sixs
            ((sx v)\<lparr>ground_reflectance_of := Ground ground_refl
               (if band_unit soil = ''Nanometers'' then map (\<lambda>x. x / 1000) (band_centers soil)
                else band_centers soil, reflectance)\<rparr>)
            (if target_sensor = ''custom'' then Some wl else None) ''apparent_reflectance'',
           outcome)])"
proof -
  assume a: "idx soil_spectra j = Inr path" "readJFSC ext path = Inr soil0"
    "remove_water_bands ext soil0 = Inr soil" "spectra soil = reflectance # rest"
  from a(4) have "soil_spectrum soil
       = Inr (if band_unit soil = ''Nanometers'' then map (\<lambda>x. x / 1000) (band_centers soil)
              else band_centers soil, reflectance)"
    by (simp add: soil_spectrum_def idx_def)
  moreover from soil_bundle_call[OF a]
  obtain outcome where "invocations
      (snd (soil_bundle ext target_sensor wl run_sixs good_bands nb m n_bundles soil_spectra
                 ground_refl i j v w))
     = invocations w @
       [(SixsCall run_sixs
          ((sx v)\<lparr>ground_reflectance_of := Ground ground_refl
             (if band_unit soil = ''Nanometers'' then map (\<lambda>x. x / 1000) (band_centers soil)
              else band_centers soil, reflectance)\<rparr>)
          (if target_sensor = ''custom'' then Some wl else None) ''apparent_reflectance'',
         outcome)]"
    by blast
  then have "new_invocations w
         (snd (soil_bundle ext target_sensor wl run_sixs good_bands nb m n_bundles soil_spectra
                 ground_refl i j v w))
       = [(SixsCall run_sixs
            ((sx v)\<lparr>ground_reflectance_of := Ground ground_refl
               (if band_unit soil = ''Nanometers'' then map (\<lambda>x. x / 1000) (band_centers soil)
                else band_centers soil, reflectance)\<rparr>)
            (if target_sensor = ''custom'' then Some wl else None) ''apparent_reflectance'',
           outcome)]"
    by (rule new_invocations_append)
  ultimately show ?thesis by blast
qed

theorem soil_axis_converted_only_for_nanometers_witness:
  "idx [''a.txt''] 0 = Inr ''a.txt'' \<and> readJFSC demo_externals ''a.txt'' = Inr demo_soil \<and>
   remove_water_bands demo_externals demo_soil = Inr demo_soil \<and>
   spectra demo_soil = [0.1, 0.2, 0.3] # [] \<and>
   band_unit demo_soil = ''Nanometers'' \<and>
   soil_spectrum demo_soil = Inr ([0.4, 0.5, 2.5], [0.1, 0.2, 0.3])"
proof -
  have a: "idx [''a.txt''] 0 = Inr ''a.txt''" "readJFSC demo_externals ''a.txt'' = Inr demo_soil"
    "remove_water_bands demo_externals demo_soil = Inr demo_soil"
    "spectra demo_soil = [0.1, 0.2, 0.3] # []"
    by (simp_all add: idx_def demo_externals_def demo_soil_def)
  from soil_axis_converted_only_for_nanometers[OF a]
  have "soil_spectrum demo_soil
       = Inr (if band_unit demo_soil = ''Nanometers''
              then map (\<lambda>x. x / 1000) (band_centers demo_soil)
              else band_centers demo_soil, [0.1, 0.2, 0.3])"
    by blast
  then have "soil_spectrum demo_soil = Inr ([0.4, 0.5, 2.5], [0.1, 0.2, 0.3])"
    by (simp add: demo_soil_def)
  with a show ?thesis by (simp add: demo_soil_def)
qed

theorem unrecognized_unit_tag_counterexample:
  "band_unit unknown_unit_soil = ''Unknown'' \<and>
   soil_spectrum unknown_unit_soil = Inr ([400, 500, 2500], [0.1, 0.2, 0.3]) \<and>
   soil_script ''soil'' 2 3 ''custom'' demo_wl unknown_unit_externals demo_draws empty_world
     = (Inl (NameError ''envi''), unknown_unit_world) \<and>
   soil_script ''soil'' 2 3 ''custom'' demo_wl demo_externals demo_draws empty_world
     = (Inl (NameError ''envi''), soil_demo_world) \<and>
   length (invocations unknown_unit_world) = 6 \<and>
   list_all returned (invocations unknown_unit_world) \<and>
   fst (hd (invocations unknown_unit_world))
     = SixsCall run_wavelengths
         (demo_sixs_1\<lparr>ground_reflectance_of
            := Ground HomogeneousLambertian ([400, 500, 2500], [0.1, 0.2, 0.3])\<rparr>)
         (Some demo_wl) ''apparent_reflectance'' \<and>
   length (csv_rows unknown_unit_world ''soil_speclib.csv'') = 7"
  using unknown_unit_run soil_demo_run
  by (simp add: unknown_unit_soil_def soil_spectrum_def idx_def unknown_unit_world_def
      returned_def raw_ground_def demo_sixs_call_def csv_rows_def)

text \<open>
  C9: the artifacts are written only when the whole loop has completed. Every run
  extends the log of invocations. In the vegetation script, a run that ends with an error
  leaves the files exactly as they were, and a logged invocation that raised makes the
  run end with an error; a completed run logged one returned invocation per spectrum. In
  the soil script, unless the loops made all their invocations and each of them
  returned, the paths of the CSV and the \<^verbatim>\<open>.sli\<close> file hold what they held before
  (only the 6S input files of the atmospheres already finished are new). The header path
  holds what it held before in every run, and every run ends with an error: the run
  whose loops completed writes the CSV and the \<^verbatim>\<open>.sli\<close> file and then stops at
  line 299.
\<close>

theorem artifacts_written_only_after_the_loop:
  "(veg_script output_base n_bundles nb run rs w = Some (r, w') \<longrightarrow>
      invocations w' = invocations w @ new_invocations w w' \<and>
      (r = Inr () \<longrightarrow> length (new_invocations w w') = n_bundles \<and>
         list_all returned (new_invocations w w')) \<and>
      (\<not> list_all returned (new_invocations w w') \<longrightarrow> isl r) \<and>
      (isl r \<longrightarrow> files w' = files w)) \<and>
   (soil_script soil_base n_atmospheres n_soils target_sensor wl ext d sw = (sr, sw') \<longrightarrow>
      invocations sw' = invocations sw @ new_invocations sw sw' \<and>
      (length (new_invocations sw sw') \<noteq> n_atmospheres * n_soils \<or>
       \<not> list_all returned (new_invocations sw sw') \<longrightarrow>
         files sw' (soil_base @ ''_speclib.csv'') = files sw (soil_base @ ''_speclib.csv'') \<and>
         files sw' (soil_base @ ''_speclib.sli'') = files sw (soil_base @ ''_speclib.sli'')) \<and>
      files sw' (soil_base @ ''_speclib.hdr'') = files sw (soil_base @ ''_speclib.hdr'') \<and>
      isl sr)"
proof (intro conjI impI)
  assume run: "veg_script output_base n_bundles nb run rs w = Some (r, w')"
  then obtain p k where drv: "veg_driver output_base n_bundles nb run p w = (r, w')"
    by (rule veg_scriptD)
  note log = veg_driver_log[OF drv]
  show "invocations w' = invocations w @ new_invocations w w'"
    using log by (rule log_stepD(1))
  have fin: "length (new_invocations w w') = n_bundles \<and> list_all returned (new_invocations w w')"
    if "\<not> isl r"
    using log_stepD(2)[OF log] that by simp
  show "length (new_invocations w w') = n_bundles" if "r = Inr ()"
    using fin that by simp
  show "list_all returned (new_invocations w w')" if "r = Inr ()"
    using fin that by simp
  show "isl r" if "\<not> list_all returned (new_invocations w w')"
    using fin that by blast
  show "files w' = files w" if "isl r"
  proof -
    from that obtain e where "r = Inl e" by (cases r) simp_all
    with drv show ?thesis by (auto dest: veg_driver_error_files)
  qed
next
  assume run: "soil_script soil_base n_atmospheres n_soils target_sensor wl ext d sw = (sr, sw')"
  show "invocations sw' = invocations sw @ new_invocations sw sw'"
    using run by (rule soil_script_log(1))
  show "files sw' (soil_base @ ''_speclib.csv'') = files sw (soil_base @ ''_speclib.csv'')"
    if "length (new_invocations sw sw') \<noteq> n_atmospheres * n_soils \<or>
       \<not> list_all returned (new_invocations sw sw')"
    using soil_script_log(2)[OF run that] by simp
  show "files sw' (soil_base @ ''_speclib.sli'') = files sw (soil_base @ ''_speclib.sli'')"
    if "length (new_invocations sw sw') \<noteq> n_atmospheres * n_soils \<or>
       \<not> list_all returned (new_invocations sw sw')"
    using soil_script_log(2)[OF run that] by simp
  have "files (snd (soil_script soil_base n_atmospheres n_soils target_sensor wl ext d sw))
       (soil_base @ ''_speclib.hdr'')
     = files sw (soil_base @ ''_speclib.hdr'')"
    by (rule soil_script_files) (simp_all add: output_sixs_def)
  with run show "files sw' (soil_base @ ''_speclib.hdr'') = files sw (soil_base @ ''_speclib.hdr'')"
    by simp
  from soil_script_raises[of soil_base n_atmospheres n_soils target_sensor wl ext d sw] run
  show "isl sr" by simp
qed

theorem artifacts_written_only_after_the_loop_witness:
  "veg_script ''lib'' 3 5 failing_model demo_stream empty_world
     = Some (Inl (ExternalError ''prosail''), failed_world) \<and>
   soil_script ''soil'' 2 3 ''custom'' demo_wl failing_externals demo_draws empty_world
     = (Inl (ExternalError ''sixs''), soil_failed_world) \<and>
   \<not> list_all returned (new_invocations empty_world failed_world) \<and>
   files failed_world = files empty_world \<and>
   \<not> list_all returned (new_invocations empty_world soil_failed_world) \<and>
   files soil_failed_world ''soil_speclib.csv'' = files empty_world ''soil_speclib.csv'' \<and>
   files soil_failed_world ''soil_speclib.sli'' = files empty_world ''soil_speclib.sli'' \<and>
   files soil_failed_world ''soil_speclib.hdr'' = files empty_world ''soil_speclib.hdr''"
proof -
  have v: "\<not> list_all returned (new_invocations empty_world failed_world)"
    by (simp add: new_invocations_def empty_world_def failed_world_def returned_def)
  have s: "\<not> list_all returned (new_invocations empty_world soil_failed_world)"
    by (simp add: new_invocations_def empty_world_def soil_failed_world_def returned_def)
  from artifacts_written_only_after_the_loop[of "''lib''" 3 5 failing_model demo_stream
      empty_world "Inl (ExternalError ''prosail'')" failed_world "''soil''" 2 3 "''custom''"
      demo_wl failing_externals demo_draws empty_world "Inl (ExternalError ''sixs'')"
      soil_failed_world]
    failed_run soil_failed_run v s
  show ?thesis by simp
qed

end
